theory Spec2Isabelle
  imports Main "HOL-Library.Sublist"
begin

section \<open>JavaScript strings\<close>

text \<open>
  Class names, paths and emitted text are \<^typ>\<open>string\<close>s; a character stands for one code
  unit of the JavaScript string.  The character classes below are those of the regular
  expressions of the source, which are written without the \<open>u\<close> flag: they hold ASCII
  characters only, also under the \<open>i\<close> flag.  The methods \<open>toLowerCase\<close> and \<open>toUpperCase\<close>
  of JavaScript strings follow the Unicode case mappings; they are not modelled here but
  taken as parameters, among the collaborators below.
\<close>

definition nl :: string where
  "nl = [CHR 0x0A]"

definition sq :: string where
  "sq = [CHR 0x27]"

definition dq :: string where
  "dq = [CHR 0x22]"

definition is_upper :: "char \<Rightarrow> bool" where
  "is_upper c = (65 \<le> (of_char c :: nat) \<and> (of_char c :: nat) \<le> 90)"

definition is_lower :: "char \<Rightarrow> bool" where
  "is_lower c = (97 \<le> (of_char c :: nat) \<and> (of_char c :: nat) \<le> 122)"

definition is_digit :: "char \<Rightarrow> bool" where
  "is_digit c = (48 \<le> (of_char c :: nat) \<and> (of_char c :: nat) \<le> 57)"

definition lower_char :: "char \<Rightarrow> char" where
  "lower_char c = (if is_upper c then char_of ((of_char c :: nat) + 32) else c)"

definition upper_char :: "char \<Rightarrow> char" where
  "upper_char c = (if is_lower c then char_of ((of_char c :: nat) - 32) else c)"

text \<open>
  The case mappings of ASCII: the case folding of a regular expression with the \<open>i\<close> flag,
  and what \<open>toLowerCase\<close> and \<open>toUpperCase\<close> do on a string of ASCII characters.
\<close>

definition ascii_lower :: "string \<Rightarrow> string" where
  "ascii_lower s = map lower_char s"

definition ascii_upper :: "string \<Rightarrow> string" where
  "ascii_upper s = map upper_char s"

definition is_ascii :: "char \<Rightarrow> bool" where
  "is_ascii c = ((of_char c :: nat) < 128)"

text \<open>\<open>s.charAt(0)\<close> is the empty string on the empty string; \<open>s.slice(1)\<close> likewise.\<close>

definition charAt0 :: "string \<Rightarrow> string" where
  "charAt0 s = take 1 s"

definition slice1 :: "string \<Rightarrow> string" where
  "slice1 s = drop 1 s"

text \<open>\<open>xs.join(sep)\<close>.\<close>

fun join :: "string \<Rightarrow> string list \<Rightarrow> string" where
  "join sep [] = []"
| "join sep [x] = x"
| "join sep (x # y # ys) = x @ sep @ join sep (y # ys)"

text \<open>\<open>s.includes(t)\<close>: \<open>t\<close> occurs in \<open>s\<close> as a contiguous substring.\<close>

fun str_includes :: "string \<Rightarrow> string \<Rightarrow> bool" where
  "str_includes [] t = (t = [])"
| "str_includes (c # cs) t = (prefix t (c # cs) \<or> str_includes cs t)"

section \<open>Configuration\<close>

datatype export_type = Default | Named | Both

datatype name_format = CamelCase | Dashes | Original

text \<open>
  \<open>Omit<GeneratorOptions, 'pattern'>\<close>, the options of \<open>processSingleFile\<close>, and
  \<open>GeneratorOptions\<close>, which adds the pattern.  Every field but the pattern is optional.
\<close>

record single_file_options =
  in_output :: "string option"
  in_watch :: "bool option"
  in_exportType :: "export_type option"
  in_nameFormat :: "name_format option"
  in_debug :: "bool option"

record generator_options = single_file_options +
  in_pattern :: string

text \<open>\<open>Required<GeneratorOptions>\<close>, the field \<open>this.options\<close> of the generator.\<close>

record options =
  opt_pattern :: string
  opt_output :: string
  opt_watch :: bool
  opt_exportType :: export_type
  opt_nameFormat :: name_format
  opt_debug :: bool

text \<open>
  The constructor.  \<open>x || d\<close> takes the default for every falsy \<open>x\<close>: an absent option,
  the empty string, and \<open>false\<close>.
\<close>

definition constructor :: "generator_options \<Rightarrow> options" where
  "constructor opts =
     \<lparr> opt_pattern = in_pattern opts,
       opt_output = (case in_output opts of None \<Rightarrow> ''auto''
                     | Some d \<Rightarrow> if d = [] then ''auto'' else d),
       opt_watch = (case in_watch opts of None \<Rightarrow> False | Some b \<Rightarrow> b),
       opt_exportType = (case in_exportType opts of None \<Rightarrow> Default | Some e \<Rightarrow> e),
       opt_nameFormat = (case in_nameFormat opts of None \<Rightarrow> CamelCase | Some f \<Rightarrow> f),
       opt_debug = (case in_debug opts of None \<Rightarrow> False | Some b \<Rightarrow> b) \<rparr>"

section \<open>Collaborators and effects\<close>

text \<open>A thrown value, and a line of console output.\<close>

datatype js_error = Error string | TypeError string

datatype console =
  Info string
| Log string
| ConsoleError string js_error

text \<open>
  The collaborators the program calls but does not implement, over a state \<open>'w\<close> of the
  world outside the process (the file system): glob discovery, the Sass compiler, the
  scoping engine (\<open>postcss_modules w css from\<close> is the list of keys of the object handed to
  \<open>getJSON\<close>), the file-system primitives, the working directory, the functions of
  \<open>path\<close> other than \<open>dirname\<close> and \<open>isAbsolute\<close>, and the string methods \<open>toLowerCase\<close> and
  \<open>toUpperCase\<close>.  A call that can throw returns \<open>Inl\<close> of the thrown value; a call that
  changes the world returns the new world together with the thrown value, if any.
\<close>

record 'w collaborators =
  glob :: "'w \<Rightarrow> string \<Rightarrow> js_error + string list"
  sass_compile :: "'w \<Rightarrow> string \<Rightarrow> js_error + string"
  readFileSync :: "'w \<Rightarrow> string \<Rightarrow> js_error + string"
  postcss_modules :: "'w \<Rightarrow> string \<Rightarrow> string \<Rightarrow> js_error + string list"
  mkdirSync :: "'w \<Rightarrow> string \<Rightarrow> 'w \<times> js_error option"
  writeFileSync :: "'w \<Rightarrow> string \<Rightarrow> string \<Rightarrow> 'w \<times> js_error option"
  existsSync :: "'w \<Rightarrow> string \<Rightarrow> bool"
  unlinkSync :: "'w \<Rightarrow> string \<Rightarrow> 'w \<times> js_error option"
  cwd :: string
  extname :: "string \<Rightarrow> string"
  path_join :: "string \<Rightarrow> string \<Rightarrow> string"
  path_relative :: "string \<Rightarrow> string \<Rightarrow> string"
  path_resolve :: "string \<Rightarrow> string \<Rightarrow> string"
  toLowerCase :: "string \<Rightarrow> string"
  toUpperCase :: "string \<Rightarrow> string"

text \<open>
  What a run leaves behind: the world, the console output, and the value it threw (the
  rejection of its promise), if any.
\<close>

type_synonym 'w outcome = "'w \<times> console list \<times> js_error option"

text \<open>\<open>set.add(x)\<close> on a \<open>Set\<close> kept as the list of its elements in insertion order.\<close>

definition set_add :: "string \<Rightarrow> string list \<Rightarrow> string list" where
  "set_add x xs = (if x \<in> set xs then xs else xs @ [x])"

text \<open>The decimal numeral of a number, as a template literal prints it.\<close>

definition digit_char :: "nat \<Rightarrow> char" where
  "digit_char d = char_of (of_char CHR ''0'' + d)"

fun string_of_nat :: "nat \<Rightarrow> string" where
  "string_of_nat n =
     (if 10 \<le> n then string_of_nat (n div 10) @ [digit_char (n mod 10)]
      else [digit_char n])"

declare string_of_nat.simps [simp del]

text \<open>A line printed only in debug mode.\<close>

definition debug_info :: "bool \<Rightarrow> string \<Rightarrow> console list" where
  "debug_info dbg s = (if dbg then [Info s] else [])"

section \<open>Name formatting\<close>

definition is_delim :: "char \<Rightarrow> bool" where
  "is_delim c = (c = CHR ''-'' \<or> c = CHR ''_'')"

text \<open>
  \<open>name.split(/[-_]+/g)\<close>: the pieces between the maximal runs of delimiters, the empty
  pieces before a leading run and after a trailing run included; the empty string splits
  into one empty piece.  \<open>cur\<close> is the piece being read.
\<close>

function split_runs :: "string \<Rightarrow> string \<Rightarrow> string list" where
  "split_runs cur [] = [cur]"
| "split_runs cur (c # cs) =
     (if is_delim c then cur # split_runs [] (dropWhile is_delim cs)
      else split_runs (cur @ [c]) cs)"
  by pat_completeness auto
termination
  by (relation "measure (\<lambda>(cur, s). length s)")
     (auto simp: le_imp_less_Suc length_dropWhile_le)

definition split_delims :: "string \<Rightarrow> string list" where
  "split_delims name = split_runs [] name"

text \<open>\<open>/^[A-Z0-9_]+$/.test(part)\<close>.\<close>

definition shouty :: "string \<Rightarrow> bool" where
  "shouty part =
     (part \<noteq> [] \<and> list_all (\<lambda>c. is_upper c \<or> is_digit c \<or> c = CHR ''_'') part)"

text \<open>\<open>/^[a-z_$][\w$]*$/i.test(s)\<close>.\<close>

definition ident_start :: "char \<Rightarrow> bool" where
  "ident_start c = (is_lower c \<or> is_upper c \<or> c = CHR ''_'' \<or> c = CHR ''$'')"

definition ident_char :: "char \<Rightarrow> bool" where
  "ident_char c = (is_lower c \<or> is_upper c \<or> is_digit c \<or> c = CHR ''_'' \<or> c = CHR ''$'')"

definition is_identifier :: "string \<Rightarrow> bool" where
  "is_identifier s =
     (case s of [] \<Rightarrow> False | c # cs \<Rightarrow> ident_start c \<and> list_all ident_char cs)"

definition quoted :: "string \<Rightarrow> string" where
  "quoted s = sq @ s @ sq"

text \<open>The callback of \<open>parts.map((part, i) => ...)\<close> in the \<open>camelCase\<close> branch.\<close>

definition camel_part :: "'w collaborators \<Rightarrow> nat \<Rightarrow> string \<Rightarrow> string" where
  "camel_part C i part =
     (if i = 0 then
        (if shouty part then toLowerCase C part
         else toLowerCase C (charAt0 part) @ slice1 part)
      else if shouty part then toUpperCase C (charAt0 part) @ toLowerCase C (slice1 part)
      else toUpperCase C (charAt0 part) @ slice1 part)"

definition formatClassName :: "'w collaborators \<Rightarrow> options \<Rightarrow> string \<Rightarrow> string" where
  "formatClassName C opts name =
     (case opt_nameFormat opts of
        CamelCase \<Rightarrow>
          (let parts = filter (\<lambda>p. p \<noteq> []) (split_delims name) in
           if length parts = 0 then name
           else
             (let camel = concat (map (\<lambda>(i, part). camel_part C i part) (enumerate 0 parts))
              in if is_identifier camel then camel else quoted camel))
      | Dashes \<Rightarrow> quoted name
      | Original \<Rightarrow> (if is_identifier name then name else quoted name))"

section \<open>Declaration text\<close>

text \<open>
  The class-name set is given as the list of its elements in iteration order
  (\<open>Array.from(classNames)\<close>).
\<close>

definition formattedClassNames :: "'w collaborators \<Rightarrow> options \<Rightarrow> string list \<Rightarrow> string list" where
  "formattedClassNames C opts classNames = map (formatClassName C opts) classNames"

definition member_line :: "string \<Rightarrow> string" where
  "member_line name = ''  readonly '' @ name @ '': string;''"

definition index_signature :: string where
  "index_signature = ''  readonly [key: string]: string;''"

definition classNamesType :: "string list \<Rightarrow> string" where
  "classNamesType formatted =
     (if length formatted > 0 then join nl (map member_line formatted)
      else index_signature)"

definition named_line :: "string \<Rightarrow> string" where
  "named_line name = ''export declare const '' @ name @ '': string;''"

definition both_line :: "string \<Rightarrow> string" where
  "both_line name = ''export const '' @ name @ '': string;''"

text \<open>The template shared by the \<open>default\<close> and \<open>both\<close> branches, up to its last newline.\<close>

definition default_block :: "string \<Rightarrow> string" where
  "default_block members =
     ''export interface CssModuleClasses {'' @ nl @
     members @ nl @
     ''}'' @ nl @
     nl @
     ''export type ClassNames = keyof CssModuleClasses;'' @ nl @
     nl @
     ''declare const classes: CssModuleClasses;'' @ nl @
     ''export default classes;'' @ nl"

definition generateTypeDefinition :: "'w collaborators \<Rightarrow> options \<Rightarrow> string list \<Rightarrow> string" where
  "generateTypeDefinition C opts classNames =
     (let formatted = formattedClassNames C opts classNames;
          members = classNamesType formatted
      in case opt_exportType opts of
           Named \<Rightarrow> join nl (map named_line formatted)
         | Both \<Rightarrow> default_block members @ nl @ join nl (map both_line formatted) @ nl
         | Default \<Rightarrow> default_block members)"

section \<open>Paths\<close>

text \<open>
  \<open>path.dirname\<close> and \<open>path.isAbsolute\<close> of Node's POSIX \<open>path\<close> module.  \<open>dirname\<close>
  scans the path from its end down to index 1: it skips trailing slashes, then the last
  component, and cuts the path at the slash it meets next (\<open>end\<close>); with no such slash
  the result is \<open>/\<close> for a rooted path and \<open>.\<close> otherwise, and a cut at index 1 of a
  rooted path gives \<open>//\<close>.  Below, \<open>r\<close> is what is left of the reversed tail of the path
  when the scan stops, so \<open>end\<close> is its length.
\<close>

definition is_slash :: "char \<Rightarrow> bool" where
  "is_slash c = (c = CHR ''/'')"

definition dirname :: "string \<Rightarrow> string" where
  "dirname path =
     (if path = [] then ''.''
      else
        (let hasRoot = is_slash (hd path);
             r = dropWhile (\<lambda>c. \<not> is_slash c) (dropWhile is_slash (rev (tl path)))
         in if r = [] then (if hasRoot then ''/'' else ''.'')
            else if hasRoot \<and> length r = 1 then ''//''
            else take (length r) path))"

definition isAbsolute :: "string \<Rightarrow> bool" where
  "isAbsolute path = (path \<noteq> [] \<and> is_slash (hd path))"

section \<open>The generator\<close>

definition getOutputPath :: "'w collaborators \<Rightarrow> options \<Rightarrow> string \<Rightarrow> string" where
  "getOutputPath C opts filePath =
     (if opt_output opts = ''auto'' then filePath @ ''.d.ts''
      else
        (let relativePath = path_relative C (cwd C) filePath;
             outputFileName = relativePath @ ''.d.ts''
         in path_join C (opt_output opts) outputFileName))"

text \<open>
  The load step of \<open>processFile\<close>: a Sass file is compiled, any other file is read.
\<close>

definition is_sass :: "'w collaborators \<Rightarrow> string \<Rightarrow> bool" where
  "is_sass C filePath = (let ext = extname C filePath in ext = ''.scss'' \<or> ext = ''.sass'')"

definition loadCss :: "'w collaborators \<Rightarrow> 'w \<Rightarrow> string \<Rightarrow> js_error + string" where
  "loadCss C w filePath =
     (if is_sass C filePath then sass_compile C w filePath else readFileSync C w filePath)"

text \<open>
  The \<open>try\<close> block of \<open>processFile\<close>: the world and the lines printed when it ends, and
  the value thrown if it ends by a throw.
\<close>

definition processFile_try :: "'w collaborators \<Rightarrow> options \<Rightarrow> string \<Rightarrow> 'w \<Rightarrow> 'w outcome" where
  "processFile_try C opts filePath w =
     (let log1 = debug_info (opt_debug opts) (''Processing file: '' @ filePath) @
                 debug_info (opt_debug opts)
                   ((if is_sass C filePath then ''Compiling SCSS file: ''
                     else ''Reading CSS file: '') @ filePath)
      in case loadCss C w filePath of
           Inl e \<Rightarrow> (w, log1, Some e)
         | Inr css \<Rightarrow>
             (case postcss_modules C w css filePath of
                Inl e \<Rightarrow> (w, log1, Some e)
              | Inr keys \<Rightarrow>
                  (let classNames = foldl (\<lambda>s key. set_add key s) [] keys;
                       typeDefinition = generateTypeDefinition C opts classNames;
                       outputPath = getOutputPath C opts filePath;
                       outputDir = dirname outputPath
                   in case mkdirSync C w outputDir of
                        (w1, Some e) \<Rightarrow> (w1, log1, Some e)
                      | (w1, None) \<Rightarrow>
                          (case writeFileSync C w1 outputPath typeDefinition of
                             (w2, Some e) \<Rightarrow> (w2, log1, Some e)
                           | (w2, None) \<Rightarrow>
                               (w2,
                                log1 @ [Info (''Generated types for '' @ filePath @ '' -> '' @ outputPath)],
                                None)))))"

text \<open>\<open>processFile\<close>: the \<open>catch\<close> clause prints the error and returns normally.\<close>

definition processFile :: "'w collaborators \<Rightarrow> options \<Rightarrow> string \<Rightarrow> 'w \<Rightarrow> 'w \<times> console list" where
  "processFile C opts filePath w =
     (case processFile_try C opts filePath w of
        (w', lg, None) \<Rightarrow> (w', lg)
      | (w', lg, Some e) \<Rightarrow> (w', lg @ [ConsoleError (''Error processing '' @ filePath @ '':'') e]))"

text \<open>The loop \<open>for (const file of files) await this.processFile(file)\<close>.\<close>

fun processFiles :: "'w collaborators \<Rightarrow> options \<Rightarrow> string list \<Rightarrow> 'w \<times> console list \<Rightarrow> 'w \<times> console list" where
  "processFiles C opts [] st = st"
| "processFiles C opts (file # files) (w, lg) =
     (case processFile C opts file w of
        (w', lg') \<Rightarrow> processFiles C opts files (w', lg @ lg'))"

definition generate :: "'w collaborators \<Rightarrow> options \<Rightarrow> 'w \<Rightarrow> 'w outcome" where
  "generate C opts w =
     (let log0 = debug_info (opt_debug opts)
                   (''Using glob pattern: '' @ dq @ opt_pattern opts @ dq)
      in case glob C w (opt_pattern opts) of
           Inl e \<Rightarrow> (w, log0, Some e)
         | Inr files \<Rightarrow>
             (let log1 = log0 @
                    debug_info (opt_debug opts)
                      (''Found '' @ string_of_nat (length files) @ '' matching files:'') @
                    concat (map (\<lambda>file. debug_info (opt_debug opts) (''- '' @ file)) files)
              in case processFiles C opts files (w, log1) of
                   (w', lg) \<Rightarrow> (w', lg, None)))"

definition generateCssModuleTypes :: "'w collaborators \<Rightarrow> generator_options \<Rightarrow> 'w \<Rightarrow> 'w outcome" where
  "generateCssModuleTypes C opts w = generate C (constructor opts) w"

definition processSingleFile :: "'w collaborators \<Rightarrow> string \<Rightarrow> single_file_options \<Rightarrow> 'w \<Rightarrow> 'w outcome" where
  "processSingleFile C filePath opts w =
     (let tempOptions =
            \<lparr> in_output = in_output opts, in_watch = in_watch opts,
              in_exportType = in_exportType opts, in_nameFormat = in_nameFormat opts,
              in_debug = in_debug opts, in_pattern = filePath \<rparr>
      in case generate C (constructor tempOptions) w of
           (w', lg, err) \<Rightarrow> (w', Info (''Processing single file: '' @ filePath) # lg, err))"

section \<open>Watch mode\<close>

text \<open>\<open>pattern.split('/')\<close>; \<open>cur\<close> is the piece being read.\<close>

fun split_slash_from :: "string \<Rightarrow> string \<Rightarrow> string list" where
  "split_slash_from cur [] = [cur]"
| "split_slash_from cur (c # cs) =
     (if is_slash c then cur # split_slash_from [] cs
      else split_slash_from (cur @ [c]) cs)"

text \<open>\<open>pattern.split('/')[1] || ''\<close>.\<close>

definition projectDir :: "string \<Rightarrow> string" where
  "projectDir pattern =
     (case split_slash_from [] pattern of
        _ # second # _ \<Rightarrow> second
      | _ \<Rightarrow> [])"

text \<open>
  The loop \<open>while (parent !== '.' && parent !== '/')\<close> of \<open>getDirectoriesToWatch\<close>, on the
  current \<open>parent\<close> and the set \<open>watchDirs\<close>.
\<close>

function add_parents :: "string \<Rightarrow> string \<Rightarrow> string list \<Rightarrow> string list" where
  "add_parents includeFilter parent watchDirs =
     (if parent \<noteq> ''.'' \<and> parent \<noteq> ''/'' then
        (let parent' = dirname parent
         in add_parents includeFilter parent'
              (if includeFilter = [] \<or> str_includes parent' includeFilter
               then set_add parent' watchDirs else watchDirs))
      else watchDirs)"
  by pat_completeness auto
termination
proof (relation "measure (\<lambda>(f, p, ds). if p = ''.'' \<or> p = ''/'' then 0 else Suc (length p))")
  show "wf (measure (\<lambda>(f, p, ds). if p = ''.'' \<or> p = ''/'' then 0 else Suc (length p)))"
    by simp
next
  fix includeFilter parent :: string and watchDirs :: "string list" and x :: string
  assume stop: "parent \<noteq> ''.'' \<and> parent \<noteq> ''/''" and x: "x = dirname parent"
  have shorter: "length (dropWhile (\<lambda>c. \<not> is_slash c) (dropWhile is_slash (rev cs))) < length cs"
    if ne: "dropWhile (\<lambda>c. \<not> is_slash c) (dropWhile is_slash (rev cs)) \<noteq> []" for cs
  proof -
    let ?d = "dropWhile is_slash (rev cs)"
    have "?d \<noteq> []"
    proof
      assume "?d = []"
      then have "dropWhile (\<lambda>c. \<not> is_slash c) ?d = []" by (simp only: dropWhile.simps)
      with ne show False by simp
    qed
    then obtain y d' where d: "?d = y # d'" by (cases ?d) auto
    have "\<not> is_slash (hd ?d)" using \<open>?d \<noteq> []\<close> by (rule hd_dropWhile)
    then have "\<not> is_slash y" using d by simp
    then have "dropWhile (\<lambda>c. \<not> is_slash c) ?d = dropWhile (\<lambda>c. \<not> is_slash c) d'"
      using d by simp
    then have "length (dropWhile (\<lambda>c. \<not> is_slash c) ?d) \<le> length d'"
      by (simp add: length_dropWhile_le)
    also have "\<dots> < length ?d" using d by simp
    also have "\<dots> \<le> length (rev cs)" by (rule length_dropWhile_le)
    finally show ?thesis by simp
  qed
  have "(if dirname parent = ''.'' \<or> dirname parent = ''/'' then 0
         else Suc (length (dirname parent))) < Suc (length parent)"
  proof (cases parent)
    case Nil
    then show ?thesis by (simp add: dirname_def)
  next
    case (Cons c cs)
    let ?r = "dropWhile (\<lambda>c. \<not> is_slash c) (dropWhile is_slash (rev cs))"
    show ?thesis
    proof (cases "?r = []")
      case True
      with Cons show ?thesis by (simp add: dirname_def)
    next
      case False
      then have lt: "length ?r < length cs" by (rule shorter)
      show ?thesis
      proof (cases "is_slash c \<and> length ?r = 1")
        case True
        then have "dirname parent = ''//''"
          using False Cons by (simp add: dirname_def Let_def)
        then show ?thesis using lt True Cons by simp
      next
        case no: False
        then have "dirname parent = take (length ?r) parent"
          using False Cons by (auto simp: dirname_def Let_def)
        then show ?thesis using lt Cons by (simp add: min_def)
      qed
    qed
  qed
  then show "((includeFilter, x,
               if includeFilter = [] \<or> str_includes x includeFilter
               then set_add x watchDirs else watchDirs),
              includeFilter, parent, watchDirs)
             \<in> measure (\<lambda>(f, p, ds). if p = ''.'' \<or> p = ''/'' then 0 else Suc (length p))"
    using stop x by (simp split: if_splits)
qed

declare add_parents.simps [simp del]

text \<open>The loop \<open>for (const file of initialFiles)\<close>.\<close>

fun watch_files :: "string \<Rightarrow> string list \<Rightarrow> string list \<Rightarrow> string list" where
  "watch_files includeFilter [] watchDirs = watchDirs"
| "watch_files includeFilter (file # files) watchDirs =
     (let dirPath = dirname file
      in watch_files includeFilter files
           (add_parents includeFilter dirPath (set_add dirPath watchDirs)))"

text \<open>
  \<open>getDirectoriesToWatch\<close>: the console output and the array it returns, or the value
  thrown by glob discovery.
\<close>

definition getDirectoriesToWatch ::
  "'w collaborators \<Rightarrow> 'w \<Rightarrow> string \<Rightarrow> string \<Rightarrow> bool \<Rightarrow> console list \<times> (js_error + string list)" where
  "getDirectoriesToWatch C w pat includeFilter dbg =
     (case glob C w pat of
        Inl e \<Rightarrow> ([], Inl e)
      | Inr initialFiles \<Rightarrow>
          (debug_info dbg
             (''Found '' @ string_of_nat (length initialFiles) @ '' files in initial glob matching''),
           Inr (watch_files includeFilter initialFiles [])))"

text \<open>
  The options object commander hands to the action.  \<open>--output\<close>, \<open>--watch\<close> and
  \<open>--debug\<close> are declared without a default value, so they are absent unless given on the
  command line; the export type and the name format are not used by the code modelled
  below.
\<close>

record cli_options =
  cli_output :: "string option"
  cli_watch :: bool
  cli_exportType :: "export_type option"
  cli_nameFormat :: "name_format option"
  cli_debug :: bool

definition generatorOptions :: "string \<Rightarrow> cli_options \<Rightarrow> generator_options" where
  "generatorOptions pat opts =
     \<lparr> in_output = cli_output opts,
       in_watch = Some (cli_watch opts),
       in_exportType = cli_exportType opts,
       in_nameFormat = cli_nameFormat opts,
       in_debug = Some (cli_debug opts),
       in_pattern = pat \<rparr>"

text \<open>
  The start of the watch branch of the action, up to the array \<open>dirsToWatch\<close> that is
  handed to the watcher: the initial generation, then the directories to watch.
\<close>

definition watch_start ::
  "'w collaborators \<Rightarrow> string \<Rightarrow> cli_options \<Rightarrow> 'w \<Rightarrow> 'w \<times> console list \<times> (js_error + string list)" where
  "watch_start C pat opts w =
     (let log0 = [Log (''Watching '' @ pat @ '' for changes...''),
                  Info (''Current working directory: '' @ cwd C),
                  Info (''Watch pattern: '' @ pat)]
      in case generateCssModuleTypes C (generatorOptions pat opts) w of
           (w', lg, Some e) \<Rightarrow> (w', log0 @ lg, Inl e)
         | (w', lg, None) \<Rightarrow>
             (case getDirectoriesToWatch C w' pat (projectDir pat) (cli_debug opts) of
                (lg', dirs) \<Rightarrow> (w', log0 @ lg @ lg', dirs)))"

text \<open>\<open>/\\.module\\.(?:css|scss|sass)$/i.test(filePath)\<close>.\<close>

definition moduleCssFilePattern :: "string \<Rightarrow> bool" where
  "moduleCssFilePattern filePath =
     (let l = ascii_lower filePath
      in suffix ''.module.css'' l \<or> suffix ''.module.scss'' l \<or> suffix ''.module.sass'' l)"

text \<open>
  The handler of \<open>unlink\<close> events.  It reads \<open>options.output\<close>, the option as commander
  delivers it.  When the option is absent, \<open>options.output === 'auto'\<close> is false and
  \<open>path.join\<close> is called with \<open>undefined\<close> as its first argument; \<open>path.join\<close> throws a
  \<open>TypeError\<close> on an argument that is not a string.
\<close>

definition typesFilePath :: "'w collaborators \<Rightarrow> string option \<Rightarrow> string \<Rightarrow> js_error + string" where
  "typesFilePath C out absoluteFilePath =
     (if out = Some ''auto'' then Inr (absoluteFilePath @ ''.d.ts'')
      else
        (let fileName = path_relative C (cwd C) absoluteFilePath @ ''.d.ts''
         in case out of
              None \<Rightarrow> Inl (TypeError ''path.join: argument is undefined'')
            | Some dir \<Rightarrow> Inr (path_join C dir fileName)))"

definition on_unlink :: "'w collaborators \<Rightarrow> cli_options \<Rightarrow> string \<Rightarrow> 'w \<Rightarrow> 'w outcome" where
  "on_unlink C opts filePath w =
     (if \<not> moduleCssFilePattern filePath then
        (w, debug_info (cli_debug opts)
              (''Ignoring non-module CSS/SCSS file deletion: '' @ filePath), None)
      else
        (let absoluteFilePath =
               (if isAbsolute filePath then filePath else path_resolve C (cwd C) filePath)
         in case typesFilePath C (cli_output opts) absoluteFilePath of
              Inl e \<Rightarrow> (w, [], Some e)
            | Inr target \<Rightarrow>
                (if existsSync C w target then
                   (case unlinkSync C w target of
                      (w', Some e) \<Rightarrow> (w', [], Some e)
                    | (w', None) \<Rightarrow>
                        (w',
                         [Log (''File '' @ absoluteFilePath @ '' removed, deleted types file: '' @ target)],
                         None))
                 else (w, [], None))))"

section \<open>A file system in memory\<close>

text \<open>
  Collaborators for running the model on concrete inputs, in the manner of the mocks of the
  test suite: the world is the list of files with their contents; glob discovery returns
  \<open>found\<close> whatever the pattern; the scoping engine reports \<open>keys\<close>; reading a file that
  does not exist throws; \<open>extname\<close> and \<open>path.join\<close> are the mocks of the test suite; the
  case mappings are those of ASCII.
\<close>

type_synonym mem_fs = "(string \<times> string) list"

definition mem_read :: "mem_fs \<Rightarrow> string \<Rightarrow> js_error + string" where
  "mem_read w p = (case map_of w p of None \<Rightarrow> Inl (Error ''File not found'') | Some c \<Rightarrow> Inr c)"

definition mem_relative :: "string \<Rightarrow> string \<Rightarrow> string" where
  "mem_relative from to =
     (if prefix (from @ ''/'') to then drop (Suc (length from)) to else to)"

definition mem_collab :: "string list \<Rightarrow> string list \<Rightarrow> mem_fs collaborators" where
  "mem_collab found keys =
     \<lparr> glob = (\<lambda>w pat. Inr found),
       sass_compile = mem_read,
       readFileSync = mem_read,
       postcss_modules = (\<lambda>w css from. Inr keys),
       mkdirSync = (\<lambda>w d. (w, None)),
       writeFileSync = (\<lambda>w p c. ((p, c) # filter (\<lambda>(q, _). q \<noteq> p) w, None)),
       existsSync = (\<lambda>w p. map_of w p \<noteq> None),
       unlinkSync = (\<lambda>w p. (filter (\<lambda>(q, _). q \<noteq> p) w, None)),
       cwd = ''/proj'',
       extname = (\<lambda>p. if str_includes p ''.scss'' then ''.scss'' else ''.css''),
       path_join = (\<lambda>a b. a @ ''/'' @ b),
       path_relative = mem_relative,
       path_resolve = (\<lambda>from to. from @ ''/'' @ to),
       toLowerCase = ascii_lower,
       toUpperCase = ascii_upper \<rparr>"

text \<open>The options of a generator constructed from a pattern alone.\<close>

definition default_options :: "string \<Rightarrow> options" where
  "default_options pat =
     constructor \<lparr> in_output = None, in_watch = None, in_exportType = None,
                   in_nameFormat = None, in_debug = None, in_pattern = pat \<rparr>"

section \<open>The naming rule in the words of the specification\<close>

text \<open>
  The segments of a name: its maximal runs of characters other than \<open>-\<close> and \<open>_\<close>, in
  order.  No segment is empty.
\<close>

function segments :: "string \<Rightarrow> string list" where
  "segments [] = []"
| "segments (c # cs) =
     (if is_delim c then segments cs
      else (c # takeWhile (\<lambda>x. \<not> is_delim x) cs) # segments (dropWhile (\<lambda>x. \<not> is_delim x) cs))"
  by pat_completeness auto
termination
  by (relation "measure length") (auto simp: le_imp_less_Suc length_dropWhile_le)

text \<open>
  The first segment is lower-cased when it is shouty, and has its first character
  lower-cased otherwise.  A later segment has its first character upper-cased, and its
  remainder lower-cased when the segment is shouty.  \<open>lower\<close> and \<open>upper\<close> are the case
  mappings of strings.
\<close>

definition first_segment :: "(string \<Rightarrow> string) \<Rightarrow> string \<Rightarrow> string" where
  "first_segment lower p =
     (if shouty p then lower p
      else (case p of [] \<Rightarrow> [] | c # cs \<Rightarrow> lower [c] @ cs))"

definition later_segment :: "(string \<Rightarrow> string) \<Rightarrow> (string \<Rightarrow> string) \<Rightarrow> string \<Rightarrow> string" where
  "later_segment lower upper p =
     (case p of [] \<Rightarrow> []
      | c # cs \<Rightarrow> upper [c] @ (if shouty p then lower cs else cs))"

definition quote_unless_identifier :: "string \<Rightarrow> string" where
  "quote_unless_identifier s = (if is_identifier s then s else quoted s)"

text \<open>
  The rule: a name without segments is returned unchanged; otherwise the transformed
  segments are concatenated and the result is quoted unless it is a bare identifier.
\<close>

definition spec_camelCase :: "(string \<Rightarrow> string) \<Rightarrow> (string \<Rightarrow> string) \<Rightarrow> string \<Rightarrow> string" where
  "spec_camelCase lower upper name =
     (case segments name of
        [] \<Rightarrow> name
      | p # ps \<Rightarrow>
          quote_unless_identifier
            (first_segment lower p @ concat (map (later_segment lower upper) ps)))"

text \<open>
  The case mappings of the collaborators are those of ASCII on every string of ASCII
  characters, as the ones of JavaScript are.
\<close>

definition ascii_case :: "'w collaborators \<Rightarrow> bool" where
  "ascii_case C =
     (\<forall>s. list_all is_ascii s \<longrightarrow>
          toLowerCase C s = ascii_lower s \<and> toUpperCase C s = ascii_upper s)"

section \<open>Reading the console output\<close>

text \<open>
  A line that reports the end of the processing of the file \<open>f\<close>: the line
  \<open>Generated types for f -> ...\<close> of a success, or the line \<open>Error processing f:\<close> of a
  caught failure, printed with the error.
\<close>

definition reports_outcome :: "string \<Rightarrow> console \<Rightarrow> bool" where
  "reports_outcome f line =
     (case line of
        Info s \<Rightarrow> prefix (''Generated types for '' @ f @ '' -> '') s
      | Log s \<Rightarrow> False
      | ConsoleError s e \<Rightarrow> s = ''Error processing '' @ f @ '':'')"

definition reported :: "string \<Rightarrow> console list \<Rightarrow> bool" where
  "reported f lg = list_ex (reports_outcome f) lg"

text \<open>The lines \<open>generate\<close> prints in debug mode before it processes the files it found.\<close>

definition generate_header :: "options \<Rightarrow> string list \<Rightarrow> console list" where
  "generate_header opts files =
     debug_info (opt_debug opts) (''Using glob pattern: '' @ dq @ opt_pattern opts @ dq) @
     debug_info (opt_debug opts) (''Found '' @ string_of_nat (length files) @ '' matching files:'') @
     concat (map (\<lambda>file. debug_info (opt_debug opts) (''- '' @ file)) files)"


section \<open>The watched directories in the words of the specification\<close>

text \<open>
  The ancestors of a directory: its parent, the parent of its parent, and so on, where no
  parent is taken of \<open>.\<close> and of \<open>/\<close>.  The chain of a relative directory ends with \<open>.\<close> and
  that of an absolute one with \<open>/\<close>; both are ancestors.
\<close>

inductive_set ancestors :: "string \<Rightarrow> string set" for d :: string where
  parent: "d \<noteq> ''.'' \<Longrightarrow> d \<noteq> ''/'' \<Longrightarrow> dirname d \<in> ancestors d"
| grandparent: "a \<in> ancestors d \<Longrightarrow> a \<noteq> ''.'' \<Longrightarrow> a \<noteq> ''/'' \<Longrightarrow> dirname a \<in> ancestors d"

text \<open>The filter is empty or a substring of the directory.\<close>

definition passes_filter :: "string \<Rightarrow> string \<Rightarrow> bool" where
  "passes_filter flt a = (flt = [] \<or> str_includes a flt)"

text \<open>
  The directory of every file, and the ancestors of that directory that pass the filter.
\<close>

definition watched_dirs :: "string \<Rightarrow> string list \<Rightarrow> string set" where
  "watched_dirs flt files =
     (\<Union>f \<in> set files. insert (dirname f) {a \<in> ancestors (dirname f). passes_filter flt a})"

text \<open>The same as C6 words it, with the ancestors \<open>.\<close> and \<open>/\<close> left out.\<close>

definition claimed_watched_dirs :: "string \<Rightarrow> string list \<Rightarrow> string set" where
  "claimed_watched_dirs flt files =
     (\<Union>f \<in> set files.
        insert (dirname f)
          {a \<in> ancestors (dirname f). a \<noteq> ''.'' \<and> a \<noteq> ''/'' \<and> passes_filter flt a})"

text \<open>
  The options of a command line that gives only the pattern and \<open>--watch\<close>: commander fills
  in the declared defaults of the export type and of the name format.
\<close>

definition watch_cli :: cli_options where
  "watch_cli =
     \<lparr> cli_output = None, cli_watch = True, cli_exportType = Some Default,
       cli_nameFormat = Some CamelCase, cli_debug = False \<rparr>"


text \<open>
  The resolved configuration of the generator that \<open>processSingleFile\<close> constructs: the
  options it is given, with the path as the pattern.
\<close>

definition single_file_config :: "string \<Rightarrow> single_file_options \<Rightarrow> options" where
  "single_file_config filePath sopts =
     constructor
       \<lparr> in_output = in_output sopts, in_watch = in_watch sopts,
         in_exportType = in_exportType sopts, in_nameFormat = in_nameFormat sopts,
         in_debug = in_debug sopts, in_pattern = filePath \<rparr>"

section \<open>Facts about the string functions\<close>

lemma join_Cons_nonempty: "x \<noteq> [] \<Longrightarrow> join sep (x # xs) \<noteq> []"
  by (cases xs) auto

lemma str_includes_iff: "str_includes s t \<longleftrightarrow> (\<exists>ps ss. s = ps @ t @ ss)"
proof (induction s)
  case Nil
  then show ?case by auto
next
  case (Cons c cs)
  show ?case
  proof
    assume "str_includes (c # cs) t"
    then consider "prefix t (c # cs)" | "str_includes cs t" by auto
    then show "\<exists>ps ss. c # cs = ps @ t @ ss"
    proof cases
      case 1
      then obtain ss where "c # cs = t @ ss" by (auto simp: prefix_def)
      then have "c # cs = [] @ t @ ss" by simp
      then show ?thesis by blast
    next
      case 2
      with Cons obtain ps ss where "cs = ps @ t @ ss" by auto
      then have "c # cs = (c # ps) @ t @ ss" by simp
      then show ?thesis by blast
    qed
  next
    assume "\<exists>ps ss. c # cs = ps @ t @ ss"
    then obtain ps ss where eq: "c # cs = ps @ t @ ss" by auto
    show "str_includes (c # cs) t"
    proof (cases ps)
      case Nil
      with eq have "prefix t (c # cs)" by (simp add: prefix_def)
      then show ?thesis by simp
    next
      case (Cons p ps')
      with eq have "cs = ps' @ t @ ss" by simp
      with Cons.IH show ?thesis by auto
    qed
  qed
qed

section \<open>The empty class-name set\<close>

text \<open>
  C5.  For the empty class-name set, the text emitted under the export shapes \<open>default\<close>
  and \<open>both\<close> is the fixed text below: the interface holds the index-signature member
  \<open>readonly [key: string]: string;\<close> where the member list would stand.  For every list of
  formatted names the body of the interface is a non-empty text.
\<close>

theorem empty_set_index_signature:
  "generateTypeDefinition C (opts\<lparr>opt_exportType := Default\<rparr>) [] =
     ''export interface CssModuleClasses {'' @ nl @
     ''  readonly [key: string]: string;'' @ nl @
     ''}'' @ nl @ nl @
     ''export type ClassNames = keyof CssModuleClasses;'' @ nl @ nl @
     ''declare const classes: CssModuleClasses;'' @ nl @
     ''export default classes;'' @ nl
   \<and> generateTypeDefinition C (opts\<lparr>opt_exportType := Both\<rparr>) [] =
     ''export interface CssModuleClasses {'' @ nl @
     ''  readonly [key: string]: string;'' @ nl @
     ''}'' @ nl @ nl @
     ''export type ClassNames = keyof CssModuleClasses;'' @ nl @ nl @
     ''declare const classes: CssModuleClasses;'' @ nl @
     ''export default classes;'' @ nl @ nl @ nl
   \<and> str_includes (generateTypeDefinition C (opts\<lparr>opt_exportType := Default\<rparr>) [])
         ''readonly [key: string]: string;''
   \<and> str_includes (generateTypeDefinition C (opts\<lparr>opt_exportType := Both\<rparr>) [])
         ''readonly [key: string]: string;''
   \<and> classNamesType formatted \<noteq> []"
proof -
  have d: "generateTypeDefinition C (opts\<lparr>opt_exportType := Default\<rparr>) [] =
             default_block index_signature"
    by (simp add: generateTypeDefinition_def formattedClassNames_def classNamesType_def)
  have b: "generateTypeDefinition C (opts\<lparr>opt_exportType := Both\<rparr>) [] =
             default_block index_signature @ nl @ nl"
    by (simp add: generateTypeDefinition_def formattedClassNames_def classNamesType_def)
  have inc: "str_includes (default_block index_signature @ rest) ''readonly [key: string]: string;''"
    for rest
    unfolding str_includes_iff
  proof (intro exI)
    show "default_block index_signature @ rest =
            (''export interface CssModuleClasses {'' @ nl @ ''  '') @
            ''readonly [key: string]: string;'' @
            (nl @ ''}'' @ nl @ nl @ ''export type ClassNames = keyof CssModuleClasses;'' @ nl @ nl @
             ''declare const classes: CssModuleClasses;'' @ nl @ ''export default classes;'' @ nl @ rest)"
      by (simp add: default_block_def index_signature_def)
  qed
  have ne: "classNamesType formatted \<noteq> []"
  proof (cases formatted)
    case Nil
    then show ?thesis by (simp add: classNamesType_def index_signature_def)
  next
    case (Cons f fs)
    then show ?thesis
      by (simp add: classNamesType_def join_Cons_nonempty member_line_def)
  qed
  show ?thesis
    using inc [of "[]"] inc [of "nl @ nl"] ne
    by (simp add: d b default_block_def index_signature_def)
qed

section \<open>The export shape \<open>named\<close> on the empty set\<close>

text \<open>
  C10.  For the empty class-name set under the export shape \<open>named\<close> the emitted text is the
  empty string; and when a file whose stylesheet declares no class is processed under that
  shape and loading, extraction and directory creation succeed, the text written to the
  artifact path is the empty string.
\<close>

theorem named_empty_set_empty_text:
  "generateTypeDefinition C (opts\<lparr>opt_exportType := Named\<rparr>) [] = []
   \<and> (loadCss C w filePath = Inr css \<longrightarrow>
        postcss_modules C w css filePath = Inr [] \<longrightarrow>
        mkdirSync C w (dirname (getOutputPath C (opts\<lparr>opt_exportType := Named\<rparr>) filePath)) = (w1, None) \<longrightarrow>
        fst (processFile C (opts\<lparr>opt_exportType := Named\<rparr>) filePath w) =
          fst (writeFileSync C w1 (getOutputPath C (opts\<lparr>opt_exportType := Named\<rparr>) filePath) []))"
proof -
  have emp: "generateTypeDefinition C (opts\<lparr>opt_exportType := Named\<rparr>) [] = []"
    by (simp add: generateTypeDefinition_def formattedClassNames_def)
  show ?thesis
    by (auto simp: emp processFile_def processFile_try_def Let_def split: prod.splits option.splits)
qed

theorem named_empty_set_empty_text_witness:
  "generateTypeDefinition (mem_collab [''a.module.css''] [])
     (default_options ''*.css''\<lparr>opt_exportType := Named\<rparr>) [] = []
   \<and> fst (processFile (mem_collab [''a.module.css''] []) (default_options ''*.css''\<lparr>opt_exportType := Named\<rparr>)
          ''a.module.css'' [(''a.module.css'', ''p { color: red; }'')]) =
       [(''a.module.css.d.ts'', []), (''a.module.css'', ''p { color: red; }'')]"
  using named_empty_set_empty_text
    [where opts = "default_options ''*.css''" and C = "mem_collab [''a.module.css''] []"
       and w = "[(''a.module.css'', ''p { color: red; }'')]" and filePath = "''a.module.css''"
       and css = "''p { color: red; }''" and ?w1.0 = "[(''a.module.css'', ''p { color: red; }'')]"]
  by (simp add: mem_collab_def mem_read_def loadCss_def is_sass_def getOutputPath_def
                default_options_def constructor_def)

section \<open>Name formatting under \<open>camelCase\<close>\<close>

lemma segments_skip_delims: "segments (dropWhile is_delim s) = segments s"
  by (induction s) auto

lemma segments_run:
  "segments s =
     filter (\<lambda>p. p \<noteq> []) [takeWhile (\<lambda>x. \<not> is_delim x) s] @
     segments (dropWhile (\<lambda>x. \<not> is_delim x) s)"
  by (cases s) auto

lemma split_runs_segments:
  "filter (\<lambda>p. p \<noteq> []) (split_runs cur s) =
     filter (\<lambda>p. p \<noteq> []) [cur @ takeWhile (\<lambda>x. \<not> is_delim x) s] @
     segments (dropWhile (\<lambda>x. \<not> is_delim x) s)"
proof (induction cur s rule: split_runs.induct)
  case (1 cur)
  show ?case by simp
next
  case (2 cur c cs)
  show ?case
  proof (cases "is_delim c")
    case True
    have "filter (\<lambda>p. p \<noteq> []) (split_runs [] (dropWhile is_delim cs)) =
            segments (dropWhile is_delim cs)"
      using 2(1) [OF True] segments_run [of "dropWhile is_delim cs"] by simp
    then show ?thesis using True by (simp add: segments_skip_delims)
  next
    case False
    then show ?thesis using 2(2) by simp
  qed
qed

lemma split_delims_segments: "filter (\<lambda>p. p \<noteq> []) (split_delims name) = segments name"
  using split_runs_segments [of "[]" name] segments_run [of name]
  by (simp add: split_delims_def)

lemma segments_nonempty: "p \<in> set (segments s) \<Longrightarrow> p \<noteq> []"
  by (induction s rule: segments.induct) (auto split: if_splits)

lemma segments_chars: "p \<in> set (segments s) \<Longrightarrow> set p \<subseteq> set s"
proof (induction s rule: segments.induct)
  case 1
  then show ?case by simp
next
  case (2 c cs)
  show ?case
  proof (cases "is_delim c")
    case True
    with 2 show ?thesis by auto
  next
    case False
    from 2(3) False consider "p = c # takeWhile (\<lambda>x. \<not> is_delim x) cs"
      | "p \<in> set (segments (dropWhile (\<lambda>x. \<not> is_delim x) cs))" by auto
    then show ?thesis
    proof cases
      case 1
      then show ?thesis by (auto dest: set_takeWhileD)
    next
      case 2
      then have "set p \<subseteq> set (dropWhile (\<lambda>x. \<not> is_delim x) cs)"
        using "2.IH"(2) False by simp
      then show ?thesis by (auto dest: set_dropWhileD)
    qed
  qed
qed

lemma camel_part_first:
  "p \<noteq> [] \<Longrightarrow> camel_part C 0 p = first_segment (toLowerCase C) p"
  by (cases p) (simp_all add: camel_part_def first_segment_def charAt0_def slice1_def)

lemma camel_part_later:
  "0 < i \<Longrightarrow> p \<noteq> [] \<Longrightarrow>
   camel_part C i p = later_segment (toLowerCase C) (toUpperCase C) p"
  by (cases p) (simp_all add: camel_part_def later_segment_def charAt0_def slice1_def)

lemma camel_parts_later:
  "0 < n \<Longrightarrow> \<forall>p \<in> set ps. p \<noteq> [] \<Longrightarrow>
   map (\<lambda>(i, part). camel_part C i part) (enumerate n ps) =
     map (later_segment (toLowerCase C) (toUpperCase C)) ps"
  by (induction ps arbitrary: n) (simp_all add: camel_part_later)

lemma formatClassName_camelCase:
  "formatClassName C (opts\<lparr>opt_nameFormat := CamelCase\<rparr>) name =
     spec_camelCase (toLowerCase C) (toUpperCase C) name"
proof (cases "segments name")
  case Nil
  then show ?thesis
    by (simp add: formatClassName_def spec_camelCase_def split_delims_segments)
next
  case (Cons p ps)
  have ne: "\<forall>q \<in> set (p # ps). q \<noteq> []"
    using segments_nonempty [of _ name] Cons by auto
  have "map (\<lambda>(i, part). camel_part C i part) (enumerate 0 (p # ps)) =
          first_segment (toLowerCase C) p #
          map (later_segment (toLowerCase C) (toUpperCase C)) ps"
    using camel_parts_later [of "Suc 0" ps C] ne by (simp add: camel_part_first)
  then show ?thesis
    using Cons
    by (simp add: formatClassName_def spec_camelCase_def split_delims_segments
                  quote_unless_identifier_def Let_def)
qed

lemma first_segment_ascii:
  "ascii_case C \<Longrightarrow> list_all is_ascii p \<Longrightarrow>
   first_segment (toLowerCase C) p = first_segment ascii_lower p"
  by (cases p) (simp_all add: first_segment_def ascii_case_def)

lemma later_segment_ascii:
  "ascii_case C \<Longrightarrow> list_all is_ascii p \<Longrightarrow>
   later_segment (toLowerCase C) (toUpperCase C) p = later_segment ascii_lower ascii_upper p"
  by (cases p) (simp_all add: later_segment_def ascii_case_def)

lemma spec_camelCase_ascii:
  assumes "ascii_case C" and "list_all is_ascii name"
  shows "spec_camelCase (toLowerCase C) (toUpperCase C) name =
           spec_camelCase ascii_lower ascii_upper name"
proof (cases "segments name")
  case Nil
  then show ?thesis by (simp add: spec_camelCase_def)
next
  case (Cons p ps)
  have a: "list_all is_ascii q" if "q \<in> set (p # ps)" for q
  proof -
    from that Cons have "set q \<subseteq> set name" using segments_chars [of q name] by simp
    then show ?thesis using assms(2) by (auto simp: list_all_iff)
  qed
  have f: "first_segment (toLowerCase C) p = first_segment ascii_lower p"
    using assms(1) a by (simp add: first_segment_ascii)
  have m: "map (later_segment (toLowerCase C) (toUpperCase C)) ps =
             map (later_segment ascii_lower ascii_upper) ps"
    using assms(1) a by (simp add: later_segment_ascii)
  show ?thesis
    unfolding spec_camelCase_def Cons list.case f m by (rule refl)
qed

text \<open>
  C1.  Under the \<open>camelCase\<close> convention every name is split into its segments (the maximal
  runs of characters other than \<open>-\<close> and \<open>_\<close>, so that no segment is empty).  A name without
  segments is returned unchanged.  Otherwise the first segment is lower-cased when shouty
  and has its first character lower-cased when not, every later segment has its first
  character upper-cased and its remainder lower-cased when shouty, the results are
  concatenated, and the concatenation is quoted unless it is a bare identifier.  This holds
  whatever the case mappings \<open>toLowerCase\<close> and \<open>toUpperCase\<close> are.  With case mappings that
  act on ASCII strings as those of JavaScript do, the five listed names format as listed.
\<close>

theorem camelCase_format:
  "formatClassName C (opts\<lparr>opt_nameFormat := CamelCase\<rparr>) name =
     (case segments name of
        [] \<Rightarrow> name
      | p # ps \<Rightarrow>
          quote_unless_identifier
            (first_segment (toLowerCase C) p @
             concat (map (later_segment (toLowerCase C) (toUpperCase C)) ps)))
   \<and> (ascii_case C \<longrightarrow>
        formatClassName C (opts\<lparr>opt_nameFormat := CamelCase\<rparr>) ''button-primary'' =
          ''buttonPrimary''
        \<and> formatClassName C (opts\<lparr>opt_nameFormat := CamelCase\<rparr>) ''BUTTON_PRIMARY'' =
          ''buttonPrimary''
        \<and> formatClassName C (opts\<lparr>opt_nameFormat := CamelCase\<rparr>) ''nav_ITEM'' = ''navItem''
        \<and> formatClassName C (opts\<lparr>opt_nameFormat := CamelCase\<rparr>) ''123-invalid'' =
          sq @ ''123Invalid'' @ sq
        \<and> formatClassName C (opts\<lparr>opt_nameFormat := CamelCase\<rparr>) ''button--state-success'' =
          ''buttonStateSuccess'')"
proof -
  have rule: "formatClassName C (opts\<lparr>opt_nameFormat := CamelCase\<rparr>) name =
     (case segments name of
        [] \<Rightarrow> name
      | p # ps \<Rightarrow>
          quote_unless_identifier
            (first_segment (toLowerCase C) p @
             concat (map (later_segment (toLowerCase C) (toUpperCase C)) ps)))"
    by (simp add: formatClassName_camelCase spec_camelCase_def)
  have ex: "formatClassName C (opts\<lparr>opt_nameFormat := CamelCase\<rparr>) n =
              spec_camelCase ascii_lower ascii_upper n"
    if "ascii_case C" and "list_all is_ascii n" for n
    using that by (simp add: formatClassName_camelCase spec_camelCase_ascii)
  have e1: "list_all is_ascii ''button-primary''
            \<and> spec_camelCase ascii_lower ascii_upper ''button-primary'' = ''buttonPrimary''"
    by code_simp
  have e2: "list_all is_ascii ''BUTTON_PRIMARY''
            \<and> spec_camelCase ascii_lower ascii_upper ''BUTTON_PRIMARY'' = ''buttonPrimary''"
    by code_simp
  have e3: "list_all is_ascii ''nav_ITEM''
            \<and> spec_camelCase ascii_lower ascii_upper ''nav_ITEM'' = ''navItem''"
    by code_simp
  have e4: "list_all is_ascii ''123-invalid''
            \<and> spec_camelCase ascii_lower ascii_upper ''123-invalid'' = sq @ ''123Invalid'' @ sq"
    by code_simp
  have e5: "list_all is_ascii ''button--state-success''
            \<and> spec_camelCase ascii_lower ascii_upper ''button--state-success'' =
                ''buttonStateSuccess''"
    by code_simp
  show ?thesis
    using rule ex e1 e2 e3 e4 e5 by metis
qed

theorem camelCase_format_witness:
  "ascii_case (mem_collab [] [])
   \<and> formatClassName (mem_collab [] []) (default_options ''*.css'') ''nav_ITEM'' = ''navItem''
   \<and> formatClassName (mem_collab [] []) (default_options ''*.css'') ''123-invalid'' =
       sq @ ''123Invalid'' @ sq
   \<and> formatClassName (mem_collab [] []) (default_options ''*.css'') ''_'' = ''_''"
proof -
  have a: "ascii_case (mem_collab [] [])"
    by (simp add: ascii_case_def mem_collab_def)
  have o: "(default_options ''*.css'')\<lparr>opt_nameFormat := CamelCase\<rparr> = default_options ''*.css''"
    by (simp add: default_options_def constructor_def)
  have s: "segments ''_'' = []"
    by code_simp
  from camelCase_format [of "mem_collab [] []" "default_options ''*.css''" "''_''"] a s o
  show ?thesis by simp
qed

section \<open>The three export shapes\<close>

lemma str_includes_join: "x \<in> set xs \<Longrightarrow> str_includes (join sep xs) x"
proof (induction sep xs rule: join.induct)
  case (1 sep)
  then show ?case by simp
next
  case (2 sep y)
  then have "join sep [y] = [] @ x @ []" by simp
  then show ?case unfolding str_includes_iff by blast
next
  case (3 sep y z zs)
  show ?case
  proof (cases "x = y")
    case True
    then have "join sep (y # z # zs) = [] @ x @ (sep @ join sep (z # zs))" by simp
    then show ?thesis unfolding str_includes_iff by blast
  next
    case False
    with 3 have "str_includes (join sep (z # zs)) x" by simp
    then obtain ps ss where "join sep (z # zs) = ps @ x @ ss"
      unfolding str_includes_iff by blast
    then have "join sep (y # z # zs) = (y @ sep @ ps) @ x @ ss" by simp
    then show ?thesis unfolding str_includes_iff by blast
  qed
qed

lemma str_includes_append:
  "str_includes s x \<Longrightarrow> str_includes (pre @ s @ post) x"
proof -
  assume "str_includes s x"
  then obtain ps ss where "s = ps @ x @ ss" unfolding str_includes_iff by blast
  then have "pre @ s @ post = (pre @ ps) @ x @ (ss @ post)" by simp
  then show ?thesis unfolding str_includes_iff by blast
qed

lemma formatClassName_exportType:
  "formatClassName C (opts\<lparr>opt_exportType := e\<rparr>) = formatClassName C opts"
  by (rule ext) (simp add: formatClassName_def)

lemma generateTypeDefinition_Both:
  "generateTypeDefinition C (opts\<lparr>opt_exportType := Both\<rparr>) classNames =
     generateTypeDefinition C (opts\<lparr>opt_exportType := Default\<rparr>) classNames @ nl @
     join nl (map both_line (formattedClassNames C opts classNames)) @ nl"
  by (simp add: generateTypeDefinition_def formattedClassNames_def formatClassName_exportType Let_def)

lemma generateTypeDefinition_Named:
  "generateTypeDefinition C (opts\<lparr>opt_exportType := Named\<rparr>) classNames =
     join nl (map named_line (formattedClassNames C opts classNames))"
  by (simp add: generateTypeDefinition_def formattedClassNames_def formatClassName_exportType Let_def)

text \<open>
  C2 as stated fails: for the single class \<open>test\<close> the text emitted under \<open>named\<close> is the one
  declaration \<open>export declare const test: string;\<close>, and the text emitted under \<open>both\<close>
  does not contain it (its declaration is \<open>export const test: string;\<close>).
\<close>

theorem both_lacks_named_declaration_counterexample:
  "generateTypeDefinition (mem_collab [] []) (default_options ''*.css''\<lparr>opt_exportType := Named\<rparr>) [''test''] =
     ''export declare const test: string;''
   \<and> \<not> str_includes
         (generateTypeDefinition (mem_collab [] []) (default_options ''*.css''\<lparr>opt_exportType := Both\<rparr>) [''test''])
         ''export declare const test: string;''"
  by code_simp

text \<open>
  C2, amended.  For every class-name list and every name convention, the text emitted under
  \<open>both\<close> starts with the entire text emitted under \<open>default\<close>, which is followed by an empty
  line, the declarations \<open>export const <name>: string;\<close> of the formatted names, one per
  line, and a newline.  The text emitted under \<open>named\<close> is the declarations
  \<open>export declare const <name>: string;\<close> of the same formatted names, one per line.  So for
  every formatted name, \<open>named\<close> contains its declaration with the keyword \<open>declare\<close> and
  \<open>both\<close> contains its declaration without that keyword.
\<close>

theorem both_extends_default:
  "prefix (generateTypeDefinition C (opts\<lparr>opt_exportType := Default\<rparr>) classNames)
          (generateTypeDefinition C (opts\<lparr>opt_exportType := Both\<rparr>) classNames)
   \<and> generateTypeDefinition C (opts\<lparr>opt_exportType := Both\<rparr>) classNames =
       generateTypeDefinition C (opts\<lparr>opt_exportType := Default\<rparr>) classNames @ nl @
       join nl (map (\<lambda>name. ''export const '' @ name @ '': string;'')
                  (map (formatClassName C opts) classNames)) @ nl
   \<and> generateTypeDefinition C (opts\<lparr>opt_exportType := Named\<rparr>) classNames =
       join nl (map (\<lambda>name. ''export declare const '' @ name @ '': string;'')
                  (map (formatClassName C opts) classNames))
   \<and> (\<forall>name \<in> set (map (formatClassName C opts) classNames).
         str_includes (generateTypeDefinition C (opts\<lparr>opt_exportType := Named\<rparr>) classNames)
           (''export declare const '' @ name @ '': string;'')
         \<and> str_includes (generateTypeDefinition C (opts\<lparr>opt_exportType := Both\<rparr>) classNames)
           (''export const '' @ name @ '': string;''))"
proof -
  let ?fs = "map (formatClassName C opts) classNames"
  have b: "generateTypeDefinition C (opts\<lparr>opt_exportType := Both\<rparr>) classNames =
             generateTypeDefinition C (opts\<lparr>opt_exportType := Default\<rparr>) classNames @ nl @
             join nl (map both_line ?fs) @ nl"
    using generateTypeDefinition_Both [of C opts classNames] by (simp add: formattedClassNames_def)
  have n: "generateTypeDefinition C (opts\<lparr>opt_exportType := Named\<rparr>) classNames =
             join nl (map named_line ?fs)"
    using generateTypeDefinition_Named [of C opts classNames] by (simp add: formattedClassNames_def)
  have nd: "named_line = (\<lambda>name. ''export declare const '' @ name @ '': string;'')"
    by (rule ext) (simp add: named_line_def)
  have bd: "both_line = (\<lambda>name. ''export const '' @ name @ '': string;'')"
    by (rule ext) (simp add: both_line_def)
  have pre: "prefix (generateTypeDefinition C (opts\<lparr>opt_exportType := Default\<rparr>) classNames)
               (generateTypeDefinition C (opts\<lparr>opt_exportType := Both\<rparr>) classNames)"
    unfolding b by simp
  have each: "str_includes (generateTypeDefinition C (opts\<lparr>opt_exportType := Named\<rparr>) classNames)
                (named_line name)
              \<and> str_includes (generateTypeDefinition C (opts\<lparr>opt_exportType := Both\<rparr>) classNames)
                (both_line name)"
    if "name \<in> set ?fs" for name
  proof
    from that have "named_line name \<in> set (map named_line ?fs)" by auto
    then show "str_includes (generateTypeDefinition C (opts\<lparr>opt_exportType := Named\<rparr>) classNames)
                 (named_line name)"
      unfolding n by (rule str_includes_join)
  next
    from that have "both_line name \<in> set (map both_line ?fs)" by auto
    then have "str_includes (join nl (map both_line ?fs)) (both_line name)"
      by (rule str_includes_join)
    then have "str_includes
                 ((generateTypeDefinition C (opts\<lparr>opt_exportType := Default\<rparr>) classNames @ nl) @
                  join nl (map both_line ?fs) @ nl) (both_line name)"
      by (rule str_includes_append)
    then show "str_includes (generateTypeDefinition C (opts\<lparr>opt_exportType := Both\<rparr>) classNames)
                 (both_line name)"
      unfolding b by simp
  qed
  have all: "\<forall>name \<in> set ?fs.
               str_includes (generateTypeDefinition C (opts\<lparr>opt_exportType := Named\<rparr>) classNames)
                 (named_line name)
               \<and> str_includes (generateTypeDefinition C (opts\<lparr>opt_exportType := Both\<rparr>) classNames)
                 (both_line name)"
    using each by blast
  show ?thesis
    using pre b n all unfolding nd bd by blast
qed

theorem both_extends_default_witness:
  "str_includes
     (generateTypeDefinition (mem_collab [] []) (default_options ''*.css''\<lparr>opt_exportType := Named\<rparr>)
        [''test'', ''button-primary''])
     ''export declare const buttonPrimary: string;''
   \<and> str_includes
       (generateTypeDefinition (mem_collab [] []) (default_options ''*.css''\<lparr>opt_exportType := Both\<rparr>)
          [''test'', ''button-primary''])
       ''export const buttonPrimary: string;''"
proof -
  have f: "formatClassName (mem_collab [] []) (default_options ''*.css'') ''button-primary'' = ''buttonPrimary''"
    by code_simp
  have "''buttonPrimary'' \<in> set (map (formatClassName (mem_collab [] []) (default_options ''*.css''))
                                     [''test'', ''button-primary''])"
    by (simp add: f)
  with both_extends_default
         [of "mem_collab [] []" "default_options ''*.css''" "[''test'', ''button-primary'']"]
  show ?thesis by fastforce
qed

section \<open>The artifact path\<close>

text \<open>
  C4.  The artifact path is determined by the source path and the output mode: with the
  output \<open>auto\<close> it is the source path with \<open>.d.ts\<close> appended, and with an output directory
  it is \<open>path.join\<close> of that directory and the source path relative to the working
  directory with \<open>.d.ts\<close> appended.  So \<open>styles/test.css\<close> maps to \<open>styles/test.css.d.ts\<close>
  under \<open>auto\<close> (also when no output is configured), and to \<open>types/styles/test.css.d.ts\<close>
  under the output \<open>types\<close>, given that \<open>path.relative\<close> leaves \<open>styles/test.css\<close>
  as it is and \<open>path.join\<close> puts a slash between \<open>types\<close> and \<open>styles/test.css.d.ts\<close>.
  A file processed without error has its text written at that path.
\<close>

theorem getOutputPath_rule:
  "getOutputPath C opts filePath =
     (if opt_output opts = ''auto'' then filePath @ ''.d.ts''
      else path_join C (opt_output opts) (path_relative C (cwd C) filePath @ ''.d.ts''))
   \<and> getOutputPath C (constructor (gopts\<lparr>in_output := Some ''auto''\<rparr>)) ''styles/test.css'' =
       ''styles/test.css.d.ts''
   \<and> getOutputPath C (constructor (gopts\<lparr>in_output := None\<rparr>)) ''styles/test.css'' =
       ''styles/test.css.d.ts''
   \<and> (path_relative C (cwd C) ''styles/test.css'' = ''styles/test.css'' \<longrightarrow>
       path_join C ''types'' ''styles/test.css.d.ts'' = ''types/styles/test.css.d.ts'' \<longrightarrow>
       getOutputPath C (constructor (gopts\<lparr>in_output := Some ''types''\<rparr>)) ''styles/test.css'' =
         ''types/styles/test.css.d.ts'')
   \<and> (processFile_try C opts filePath w = (w', lg, None) \<longrightarrow>
       (\<exists>w1 css keys.
          w' = fst (writeFileSync C w1 (getOutputPath C opts filePath)
                      (generateTypeDefinition C opts (foldl (\<lambda>s key. set_add key s) [] keys)))
          \<and> loadCss C w filePath = Inr css \<and> postcss_modules C w css filePath = Inr keys))"
proof -
  have rule: "getOutputPath C opts filePath =
     (if opt_output opts = ''auto'' then filePath @ ''.d.ts''
      else path_join C (opt_output opts) (path_relative C (cwd C) filePath @ ''.d.ts''))"
    for opts filePath
    by (simp add: getOutputPath_def Let_def)
  have written: "\<exists>w1 css keys.
          w' = fst (writeFileSync C w1 (getOutputPath C opts filePath)
                      (generateTypeDefinition C opts (foldl (\<lambda>s key. set_add key s) [] keys)))
          \<and> loadCss C w filePath = Inr css \<and> postcss_modules C w css filePath = Inr keys"
    if "processFile_try C opts filePath w = (w', lg, None)"
    using that
    by (auto simp: processFile_try_def Let_def split: sum.splits prod.splits option.splits)
       (metis fst_conv)
  show ?thesis
    using written by (simp add: rule constructor_def)
qed

theorem getOutputPath_rule_witness:
  "getOutputPath (mem_collab [] [])
     (constructor \<lparr> in_output = Some ''types'', in_watch = None, in_exportType = None,
                    in_nameFormat = None, in_debug = None, in_pattern = ''**/*.css'' \<rparr>)
     ''styles/test.css'' = ''types/styles/test.css.d.ts''
   \<and> fst (processFile_try (mem_collab [] [''test'']) (default_options ''**/*.css'')
            ''styles/test.css'' [(''styles/test.css'', ''.test { color: red; }'')]) =
       [(''styles/test.css.d.ts'',
         generateTypeDefinition (mem_collab [] [''test'']) (default_options ''**/*.css'') [''test'']),
        (''styles/test.css'', ''.test { color: red; }'')]"
proof -
  let ?g = "\<lparr> in_output = None, in_watch = None, in_exportType = None,
              in_nameFormat = None, in_debug = None, in_pattern = ''**/*.css'' \<rparr>"
  have rel: "path_relative (mem_collab [] []) (cwd (mem_collab [] [])) ''styles/test.css'' =
               ''styles/test.css''"
    by (simp add: mem_collab_def mem_relative_def)
  have jn: "path_join (mem_collab [] []) ''types'' ''styles/test.css.d.ts'' =
              ''types/styles/test.css.d.ts''"
    by (simp add: mem_collab_def)
  have run: "fst (processFile_try (mem_collab [] [''test'']) (default_options ''**/*.css'')
            ''styles/test.css'' [(''styles/test.css'', ''.test { color: red; }'')]) =
       [(''styles/test.css.d.ts'',
         generateTypeDefinition (mem_collab [] [''test'']) (default_options ''**/*.css'') [''test'']),
        (''styles/test.css'', ''.test { color: red; }'')]"
    by (simp add: processFile_try_def mem_collab_def mem_read_def loadCss_def is_sass_def
                  getOutputPath_def default_options_def constructor_def set_add_def Let_def)
  show ?thesis
    using getOutputPath_rule [of "mem_collab [] []" _ _ ?g] rel jn run
    by (simp add: constructor_def)
qed


section \<open>The batch driver\<close>

lemma processFile_caught:
  "processFile_try C opts f w = (w1, lg1, Some e) \<Longrightarrow>
   processFile C opts f w = (w1, lg1 @ [ConsoleError (''Error processing '' @ f @ '':'') e])"
  by (simp add: processFile_def)

lemma processFile_reported: "reported f (snd (processFile C opts f w))"
proof -
  obtain w' lg err where t: "processFile_try C opts f w = (w', lg, err)"
    by (cases "processFile_try C opts f w") auto
  show ?thesis
  proof (cases err)
    case (Some e)
    with t show ?thesis
      by (simp add: processFile_def reported_def reports_outcome_def)
  next
    case None
    with t have "\<exists>lg0 out. lg = lg0 @ [Info (''Generated types for '' @ f @ '' -> '' @ out)]"
      by (auto simp: processFile_try_def Let_def split: sum.splits prod.splits option.splits)
    then show ?thesis
      using t None by (auto simp: processFile_def reported_def reports_outcome_def)
  qed
qed

lemma processFiles_log:
  "\<exists>ext. snd (processFiles C opts files (w, lg)) = lg @ ext"
proof (induction files arbitrary: w lg)
  case Nil
  show ?case by simp
next
  case (Cons f fs)
  obtain w' lg' where p: "processFile C opts f w = (w', lg')"
    by (cases "processFile C opts f w") auto
  from Cons [of w' "lg @ lg'"] obtain ext
    where "snd (processFiles C opts fs (w', lg @ lg')) = (lg @ lg') @ ext" by blast
  then have "snd (processFiles C opts (f # fs) (w, lg)) = lg @ (lg' @ ext)"
    using p by simp
  then show ?case by blast
qed

lemma reported_kept:
  "reported f lg \<Longrightarrow> reported f (snd (processFiles C opts files (w, lg)))"
  using processFiles_log [of C opts files w lg] by (auto simp: reported_def)

lemma processFiles_reported:
  "f \<in> set files \<Longrightarrow> reported f (snd (processFiles C opts files (w, lg)))"
proof (induction files arbitrary: w lg)
  case Nil
  then show ?case by simp
next
  case (Cons g gs)
  obtain w' lg' where p: "processFile C opts g w = (w', lg')"
    by (cases "processFile C opts g w") auto
  show ?case
  proof (cases "f = g")
    case True
    have "reported g lg'" using processFile_reported [of g C opts w] p by simp
    then have "reported g (lg @ lg')" by (simp add: reported_def)
    then show ?thesis using True p reported_kept by simp
  next
    case False
    with Cons.prems have "f \<in> set gs" by simp
    then show ?thesis using Cons.IH p by simp
  qed
qed

lemma generate_found:
  "glob C w (opt_pattern opts) = Inr files \<Longrightarrow>
   generate C opts w =
     (fst (processFiles C opts files (w, generate_header opts files)),
      snd (processFiles C opts files (w, generate_header opts files)), None)"
  by (simp add: generate_def generate_header_def Let_def split: prod.splits)

lemma generate_glob_fails:
  "glob C w (opt_pattern opts) = Inl e \<Longrightarrow>
   generate C opts w =
     (w, debug_info (opt_debug opts) (''Using glob pattern: '' @ dq @ opt_pattern opts @ dq), Some e)"
  by (simp add: generate_def)

text \<open>
  C3.  When glob discovery returns a list of files, \<open>generate\<close> ends without throwing, having
  run \<open>processFile\<close> on every file of the list in turn, and its console output holds for every
  file a line reporting its outcome with its path.  Whatever the \<open>try\<close> block of
  \<open>processFile\<close> throws is caught: \<open>processFile\<close> prints \<open>Error processing <path>:\<close> with the
  error and returns.  The block throws when loading or compiling the file fails, when the
  extraction fails, when the creation of the output directory fails, and when the write
  fails; when all four succeed it ends with the line \<open>Generated types for ...\<close>.  When glob
  discovery throws, \<open>generate\<close> throws that value and processes no file.
\<close>

theorem per_file_failures_isolated:
  "(glob C w (opt_pattern opts) = Inr files \<longrightarrow>
      (\<exists>w' lg. generate C opts w = (w', lg, None)
         \<and> (w', lg) = processFiles C opts files (w, generate_header opts files)
         \<and> (\<forall>f \<in> set files. reported f lg)))
   \<and> (processFile_try C opts f w = (w1, lg1, Some e) \<longrightarrow>
        processFile C opts f w = (w1, lg1 @ [ConsoleError (''Error processing '' @ f @ '':'') e]))
   \<and> (loadCss C w f = Inl e \<longrightarrow> (\<exists>lg1. processFile_try C opts f w = (w, lg1, Some e)))
   \<and> (loadCss C w f = Inr css \<longrightarrow> postcss_modules C w css f = Inl e \<longrightarrow>
        (\<exists>lg1. processFile_try C opts f w = (w, lg1, Some e)))
   \<and> (loadCss C w f = Inr css \<longrightarrow> postcss_modules C w css f = Inr keys \<longrightarrow>
        mkdirSync C w (dirname (getOutputPath C opts f)) = (w1, Some e) \<longrightarrow>
        (\<exists>lg1. processFile_try C opts f w = (w1, lg1, Some e)))
   \<and> (loadCss C w f = Inr css \<longrightarrow> postcss_modules C w css f = Inr keys \<longrightarrow>
        mkdirSync C w (dirname (getOutputPath C opts f)) = (w1, None) \<longrightarrow>
        writeFileSync C w1 (getOutputPath C opts f)
          (generateTypeDefinition C opts (foldl (\<lambda>s key. set_add key s) [] keys)) = (w2, Some e) \<longrightarrow>
        (\<exists>lg1. processFile_try C opts f w = (w2, lg1, Some e)))
   \<and> (loadCss C w f = Inr css \<longrightarrow> postcss_modules C w css f = Inr keys \<longrightarrow>
        mkdirSync C w (dirname (getOutputPath C opts f)) = (w1, None) \<longrightarrow>
        writeFileSync C w1 (getOutputPath C opts f)
          (generateTypeDefinition C opts (foldl (\<lambda>s key. set_add key s) [] keys)) = (w2, None) \<longrightarrow>
        (\<exists>lg1. processFile_try C opts f w =
           (w2,
            lg1 @ [Info (''Generated types for '' @ f @ '' -> '' @ getOutputPath C opts f)],
            None)))
   \<and> (glob C w (opt_pattern opts) = Inl e \<longrightarrow>
        generate C opts w =
          (w, debug_info (opt_debug opts) (''Using glob pattern: '' @ dq @ opt_pattern opts @ dq),
           Some e))"
proof -
  have found: "\<exists>w' lg. generate C opts w = (w', lg, None)
         \<and> (w', lg) = processFiles C opts files (w, generate_header opts files)
         \<and> (\<forall>f \<in> set files. reported f lg)"
    if g: "glob C w (opt_pattern opts) = Inr files"
  proof (intro exI conjI)
    show "generate C opts w =
            (fst (processFiles C opts files (w, generate_header opts files)),
             snd (processFiles C opts files (w, generate_header opts files)), None)"
      using g by (rule generate_found)
    show "(fst (processFiles C opts files (w, generate_header opts files)),
           snd (processFiles C opts files (w, generate_header opts files))) =
          processFiles C opts files (w, generate_header opts files)"
      by simp
    show "\<forall>f \<in> set files.
            reported f (snd (processFiles C opts files (w, generate_header opts files)))"
      by (simp add: processFiles_reported)
  qed
  have ld: "loadCss C w f = Inl e \<Longrightarrow> \<exists>lg1. processFile_try C opts f w = (w, lg1, Some e)"
    by (simp add: processFile_try_def Let_def)
  have ex: "loadCss C w f = Inr css \<Longrightarrow> postcss_modules C w css f = Inl e \<Longrightarrow>
        \<exists>lg1. processFile_try C opts f w = (w, lg1, Some e)"
    by (simp add: processFile_try_def Let_def)
  have mk: "loadCss C w f = Inr css \<Longrightarrow> postcss_modules C w css f = Inr keys \<Longrightarrow>
        mkdirSync C w (dirname (getOutputPath C opts f)) = (w1, Some e) \<Longrightarrow>
        \<exists>lg1. processFile_try C opts f w = (w1, lg1, Some e)"
    by (simp add: processFile_try_def Let_def)
  have ok: "loadCss C w f = Inr css \<Longrightarrow> postcss_modules C w css f = Inr keys \<Longrightarrow>
        mkdirSync C w (dirname (getOutputPath C opts f)) = (w1, None) \<Longrightarrow>
        writeFileSync C w1 (getOutputPath C opts f)
          (generateTypeDefinition C opts (foldl (\<lambda>s key. set_add key s) [] keys)) = (w2, None) \<Longrightarrow>
        \<exists>lg1. processFile_try C opts f w =
           (w2,
            lg1 @ [Info (''Generated types for '' @ f @ '' -> '' @ getOutputPath C opts f)],
            None)"
    by (simp add: processFile_try_def Let_def)
  have wr: "loadCss C w f = Inr css \<Longrightarrow> postcss_modules C w css f = Inr keys \<Longrightarrow>
        mkdirSync C w (dirname (getOutputPath C opts f)) = (w1, None) \<Longrightarrow>
        writeFileSync C w1 (getOutputPath C opts f)
          (generateTypeDefinition C opts (foldl (\<lambda>s key. set_add key s) [] keys)) = (w2, Some e) \<Longrightarrow>
        \<exists>lg1. processFile_try C opts f w = (w2, lg1, Some e)"
    by (simp add: processFile_try_def Let_def)
  show ?thesis
    using found processFile_caught [of C opts f w w1 lg1 e] ld ex mk wr ok
          generate_glob_fails [of C w opts e]
    by blast
qed


theorem per_file_failures_isolated_witness:
  "map fst (fst (generate
      (mem_collab [''a.module.css'', ''missing.module.css'', ''b.module.scss''] [''test''])
      (default_options ''**/*.module.*'')
      [(''a.module.css'', ''.test {}''), (''b.module.scss'', ''.test {}'')])) =
     [''b.module.scss.d.ts'', ''a.module.css.d.ts'', ''a.module.css'', ''b.module.scss'']
   \<and> snd (generate
      (mem_collab [''a.module.css'', ''missing.module.css'', ''b.module.scss''] [''test''])
      (default_options ''**/*.module.*'')
      [(''a.module.css'', ''.test {}''), (''b.module.scss'', ''.test {}'')]) =
     ([Info ''Generated types for a.module.css -> a.module.css.d.ts'',
       ConsoleError ''Error processing missing.module.css:'' (Error ''File not found''),
       Info ''Generated types for b.module.scss -> b.module.scss.d.ts''], None)
   \<and> reported ''missing.module.css''
       (fst (snd (generate
          (mem_collab [''a.module.css'', ''missing.module.css'', ''b.module.scss''] [''test''])
          (default_options ''**/*.module.*'')
          [(''a.module.css'', ''.test {}''), (''b.module.scss'', ''.test {}'')])))
   \<and> generate
       ((mem_collab [] [])\<lparr>glob := (\<lambda>w pat. Inl (Error ''EACCES''))\<rparr>)
       (default_options ''**/*.module.*'') [(''a.module.css'', ''.test {}'')] =
       ([(''a.module.css'', ''.test {}'')], [], Some (Error ''EACCES''))
   \<and> processFile
       ((mem_collab [] [''test''])\<lparr>mkdirSync := (\<lambda>w d. (w, Some (Error ''EACCES'')))\<rparr>)
       (default_options ''**/*.module.*'') ''a.module.css'' [(''a.module.css'', ''.test {}'')] =
       ([(''a.module.css'', ''.test {}'')],
        [ConsoleError ''Error processing a.module.css:'' (Error ''EACCES'')])"
proof -
  let ?C = "mem_collab [''a.module.css'', ''missing.module.css'', ''b.module.scss''] [''test'']"
  let ?D = "(mem_collab [] [])\<lparr>glob := (\<lambda>w pat. Inl (Error ''EACCES''))\<rparr>"
  let ?o = "default_options ''**/*.module.*''"
  let ?w = "[(''a.module.css'', ''.test {}''), (''b.module.scss'', ''.test {}'')]"
  have g: "glob ?C ?w (opt_pattern ?o) =
             Inr [''a.module.css'', ''missing.module.css'', ''b.module.scss'']"
    by (simp add: mem_collab_def)
  have run: "map fst (fst (generate ?C ?o ?w)) =
               [''b.module.scss.d.ts'', ''a.module.css.d.ts'', ''a.module.css'', ''b.module.scss'']
             \<and> snd (generate ?C ?o ?w) =
               ([Info ''Generated types for a.module.css -> a.module.css.d.ts'',
                 ConsoleError ''Error processing missing.module.css:'' (Error ''File not found''),
                 Info ''Generated types for b.module.scss -> b.module.scss.d.ts''], None)"
    by code_simp
  have f: "glob ?D [(''a.module.css'', ''.test {}'')] (opt_pattern ?o) = Inl (Error ''EACCES'')"
    by simp
  have dbg: "debug_info (opt_debug ?o) s = []" for s
    by (simp add: debug_info_def default_options_def constructor_def)
  from per_file_failures_isolated
         [of ?C ?w ?o "[''a.module.css'', ''missing.module.css'', ''b.module.scss'']"]
       g
  have "reported ''missing.module.css'' (fst (snd (generate ?C ?o ?w)))"
    by fastforce
  moreover from per_file_failures_isolated [of ?D "[(''a.module.css'', ''.test {}'')]" ?o]  f
  have "generate ?D ?o [(''a.module.css'', ''.test {}'')] =
          ([(''a.module.css'', ''.test {}'')], [], Some (Error ''EACCES''))"
    by (simp add: dbg)
  moreover have "processFile
       ((mem_collab [] [''test''])\<lparr>mkdirSync := (\<lambda>w d. (w, Some (Error ''EACCES'')))\<rparr>)
       (default_options ''**/*.module.*'') ''a.module.css'' [(''a.module.css'', ''.test {}'')] =
       ([(''a.module.css'', ''.test {}'')],
        [ConsoleError ''Error processing a.module.css:'' (Error ''EACCES'')])"
    by code_simp
  ultimately show ?thesis using run by simp
qed

section \<open>The debug flag\<close>

lemma formatClassName_debug:
  "formatClassName C (opts\<lparr>opt_debug := d\<rparr>) = formatClassName C opts"
  by (rule ext) (simp add: formatClassName_def)

lemma generateTypeDefinition_debug:
  "generateTypeDefinition C (opts\<lparr>opt_debug := d\<rparr>) = generateTypeDefinition C opts"
  by (rule ext)
     (simp add: generateTypeDefinition_def formattedClassNames_def formatClassName_debug)

lemma getOutputPath_debug:
  "getOutputPath C (opts\<lparr>opt_debug := d\<rparr>) = getOutputPath C opts"
  by (rule ext) (simp add: getOutputPath_def)

lemma processFile_try_debug:
  "fst (processFile_try C (opts\<lparr>opt_debug := d\<rparr>) f w) = fst (processFile_try C opts f w)
   \<and> snd (snd (processFile_try C (opts\<lparr>opt_debug := d\<rparr>) f w)) =
       snd (snd (processFile_try C opts f w))"
  by (simp add: processFile_try_def generateTypeDefinition_debug getOutputPath_debug Let_def
           split: sum.splits prod.splits option.splits)

lemma processFile_debug:
  "fst (processFile C (opts\<lparr>opt_debug := d\<rparr>) f w) = fst (processFile C opts f w)"
proof -
  obtain w1 lg1 e1 where a: "processFile_try C (opts\<lparr>opt_debug := d\<rparr>) f w = (w1, lg1, e1)"
    by (cases "processFile_try C (opts\<lparr>opt_debug := d\<rparr>) f w") auto
  obtain w2 lg2 e2 where b: "processFile_try C opts f w = (w2, lg2, e2)"
    by (cases "processFile_try C opts f w") auto
  from processFile_try_debug [of C d opts f w] a b have "w1 = w2" by simp
  then show ?thesis using a b by (simp add: processFile_def split: option.splits)
qed

lemma processFiles_debug:
  "fst (processFiles C (opts\<lparr>opt_debug := d\<rparr>) files (w, lg1)) =
   fst (processFiles C opts files (w, lg2))"
proof (induction files arbitrary: w lg1 lg2)
  case Nil
  show ?case by simp
next
  case (Cons f fs)
  obtain w1 l1 where a: "processFile C (opts\<lparr>opt_debug := d\<rparr>) f w = (w1, l1)"
    by (cases "processFile C (opts\<lparr>opt_debug := d\<rparr>) f w") auto
  obtain w2 l2 where b: "processFile C opts f w = (w2, l2)"
    by (cases "processFile C opts f w") auto
  from processFile_debug [of C d opts f w] a b have "w1 = w2" by simp
  then show ?case using a b Cons [of w2 "lg1 @ l1" "lg2 @ l2"] by simp
qed

lemma generate_debug:
  "fst (generate C (opts\<lparr>opt_debug := d\<rparr>) w) = fst (generate C opts w)
   \<and> snd (snd (generate C (opts\<lparr>opt_debug := d\<rparr>) w)) = snd (snd (generate C opts w))"
proof (cases "glob C w (opt_pattern opts)")
  case (Inl e)
  then show ?thesis by (simp add: generate_def)
next
  case (Inr files)
  then have "generate C opts w =
     (fst (processFiles C opts files (w, generate_header opts files)),
      snd (processFiles C opts files (w, generate_header opts files)), None)"
    by (rule generate_found)
  moreover have "generate C (opts\<lparr>opt_debug := d\<rparr>) w =
     (fst (processFiles C (opts\<lparr>opt_debug := d\<rparr>) files
             (w, generate_header (opts\<lparr>opt_debug := d\<rparr>) files)),
      snd (processFiles C (opts\<lparr>opt_debug := d\<rparr>) files
             (w, generate_header (opts\<lparr>opt_debug := d\<rparr>) files)), None)"
    using Inr generate_found [of C w "opts\<lparr>opt_debug := d\<rparr>" files] by simp
  ultimately show ?thesis by (simp add: processFiles_debug)
qed

lemma constructor_debug:
  "constructor (gopts\<lparr>in_debug := d\<rparr>) =
     (constructor gopts)\<lparr>opt_debug := (case d of None \<Rightarrow> False | Some b \<Rightarrow> b)\<rparr>"
  by (simp add: constructor_def)

text \<open>
  C8.  Two runs that differ only in the debug option write the same text at the same paths:
  the declaration text and the artifact path do not depend on the option, and a batch run
  and a single-file run leave the same world behind and throw the same value, if any,
  whatever the option is.  Only the console output may differ.
\<close>

theorem debug_only_affects_console:
  "generateTypeDefinition C (constructor (gopts\<lparr>in_debug := d\<rparr>)) classNames =
     generateTypeDefinition C (constructor gopts) classNames
   \<and> getOutputPath C (constructor (gopts\<lparr>in_debug := d\<rparr>)) filePath =
       getOutputPath C (constructor gopts) filePath
   \<and> fst (generateCssModuleTypes C (gopts\<lparr>in_debug := d\<rparr>) w) =
       fst (generateCssModuleTypes C gopts w)
   \<and> snd (snd (generateCssModuleTypes C (gopts\<lparr>in_debug := d\<rparr>) w)) =
       snd (snd (generateCssModuleTypes C gopts w))
   \<and> fst (processSingleFile C filePath (sopts\<lparr>in_debug := d\<rparr>) w) =
       fst (processSingleFile C filePath sopts w)
   \<and> snd (snd (processSingleFile C filePath (sopts\<lparr>in_debug := d\<rparr>) w)) =
       snd (snd (processSingleFile C filePath sopts w))"
proof -
  let ?b = "case d of None \<Rightarrow> False | Some b \<Rightarrow> b"
  let ?t = "\<lambda>s. \<lparr> in_output = in_output s, in_watch = in_watch s,
                   in_exportType = in_exportType s, in_nameFormat = in_nameFormat s,
                   in_debug = in_debug s, in_pattern = filePath \<rparr>"
  have t: "constructor (?t (sopts\<lparr>in_debug := d\<rparr>)) = (constructor (?t sopts))\<lparr>opt_debug := ?b\<rparr>"
    by (simp add: constructor_def)
  have single: "fst (processSingleFile C filePath (sopts\<lparr>in_debug := d\<rparr>) w) =
                  fst (processSingleFile C filePath sopts w)
                \<and> snd (snd (processSingleFile C filePath (sopts\<lparr>in_debug := d\<rparr>) w)) =
                  snd (snd (processSingleFile C filePath sopts w))"
    using generate_debug [of C ?b "constructor (?t sopts)" w]
    unfolding processSingleFile_def Let_def t
    by (simp add: split_beta)
  show ?thesis
    using single generate_debug [of C ?b "constructor gopts" w]
    by (simp add: constructor_debug generateTypeDefinition_debug getOutputPath_debug
                  generateCssModuleTypes_def)
qed

section \<open>Processing a single file\<close>

text \<open>
  C9 as stated fails on the console output: \<open>processSingleFile\<close> first prints the line
  \<open>Processing single file: <path>\<close>, which the batch run with the same configuration does
  not print, so the two runs are never the same.
\<close>

theorem processSingleFile_extra_line_counterexample:
  "processSingleFile (mem_collab [''src/a.module.css''] [''test'']) ''src/a.module.css''
     \<lparr> in_output = None, in_watch = None, in_exportType = None, in_nameFormat = None,
       in_debug = None \<rparr>
     [(''src/a.module.css'', ''.test {}'')] \<noteq>
   generateCssModuleTypes (mem_collab [''src/a.module.css''] [''test''])
     \<lparr> in_output = None, in_watch = None, in_exportType = None, in_nameFormat = None,
       in_debug = None, in_pattern = ''src/a.module.css'' \<rparr>
     [(''src/a.module.css'', ''.test {}'')]
   \<and> fst (snd (generateCssModuleTypes (mem_collab [''src/a.module.css''] [''test''])
         \<lparr> in_output = None, in_watch = None, in_exportType = None, in_nameFormat = None,
           in_debug = None, in_pattern = ''src/a.module.css'' \<rparr>
         [(''src/a.module.css'', ''.test {}'')])) =
       [Info ''Generated types for src/a.module.css -> src/a.module.css.d.ts'']
   \<and> fst (snd (processSingleFile (mem_collab [''src/a.module.css''] [''test''])
         ''src/a.module.css''
         \<lparr> in_output = None, in_watch = None, in_exportType = None, in_nameFormat = None,
           in_debug = None \<rparr>
         [(''src/a.module.css'', ''.test {}'')])) =
       [Info ''Processing single file: src/a.module.css'',
        Info ''Generated types for src/a.module.css -> src/a.module.css.d.ts'']"
  by code_simp

text \<open>
  C9, amended.  \<open>processSingleFile\<close> prints \<open>Processing single file: <path>\<close> and then is a
  batch run with the path as the pattern: it leaves the world of that run behind, throws
  what that run throws, and prints what that run prints.  The path reaches the files only
  through glob discovery: the files processed are those that discovery returns for it, and
  when discovery returns none the world is left as it was and nothing is thrown.
\<close>

theorem processSingleFile_is_batch_run:
  "processSingleFile C filePath sopts w =
     (case generateCssModuleTypes C
             \<lparr> in_output = in_output sopts, in_watch = in_watch sopts,
               in_exportType = in_exportType sopts, in_nameFormat = in_nameFormat sopts,
               in_debug = in_debug sopts, in_pattern = filePath \<rparr> w of
        (w', lg, err) \<Rightarrow> (w', Info (''Processing single file: '' @ filePath) # lg, err))
   \<and> (glob C w filePath = Inr files \<longrightarrow>
        fst (processSingleFile C filePath sopts w) =
          fst (processFiles C (single_file_config filePath sopts) files
                 (w, generate_header (single_file_config filePath sopts) files))
        \<and> snd (snd (processSingleFile C filePath sopts w)) = None)
   \<and> (glob C w filePath = Inr [] \<longrightarrow>
        fst (processSingleFile C filePath sopts w) = w
        \<and> snd (snd (processSingleFile C filePath sopts w)) = None
        \<and> \<not> list_ex (\<lambda>line. \<exists>f. reports_outcome f line)
              (fst (snd (processSingleFile C filePath sopts w))))"
proof -
  let ?g = "\<lparr> in_output = in_output sopts, in_watch = in_watch sopts,
              in_exportType = in_exportType sopts, in_nameFormat = in_nameFormat sopts,
              in_debug = in_debug sopts, in_pattern = filePath \<rparr>"
  have pat: "opt_pattern (constructor ?g) = filePath"
    by (simp add: constructor_def)
  have eq: "processSingleFile C filePath sopts w =
     (case generateCssModuleTypes C ?g w of
        (w', lg, err) \<Rightarrow> (w', Info (''Processing single file: '' @ filePath) # lg, err))"
    by (simp add: processSingleFile_def generateCssModuleTypes_def)
  have cfg: "single_file_config filePath sopts = constructor ?g"
    by (simp add: single_file_config_def)
  have found: "fst (processSingleFile C filePath sopts w) =
             fst (processFiles C (constructor ?g) files (w, generate_header (constructor ?g) files))
           \<and> snd (snd (processSingleFile C filePath sopts w)) = None"
    if "glob C w filePath = Inr files"
  proof -
    have "generate C (constructor ?g) w =
            (fst (processFiles C (constructor ?g) files (w, generate_header (constructor ?g) files)),
             snd (processFiles C (constructor ?g) files (w, generate_header (constructor ?g) files)),
             None)"
      using that pat generate_found [of C w "constructor ?g" files] by simp
    then show ?thesis
      by (simp add: eq generateCssModuleTypes_def)
  qed
  have none: "fst (processSingleFile C filePath sopts w) = w
        \<and> snd (snd (processSingleFile C filePath sopts w)) = None
        \<and> \<not> list_ex (\<lambda>line. \<exists>f. reports_outcome f line)
              (fst (snd (processSingleFile C filePath sopts w)))"
    if "glob C w filePath = Inr []"
  proof -
    have "generate C (constructor ?g) w = (w, generate_header (constructor ?g) [], None)"
      using that pat generate_found [of C w "constructor ?g" "[]"] by simp
    then show ?thesis
      by (simp add: eq generateCssModuleTypes_def generate_header_def debug_info_def
                    reports_outcome_def)
  qed
  show ?thesis using eq found none unfolding cfg by blast
qed

theorem processSingleFile_is_batch_run_witness:
  "processSingleFile (mem_collab [] [''test'']) ''src/[id].module.css''
     \<lparr> in_output = None, in_watch = None, in_exportType = None, in_nameFormat = None,
       in_debug = None \<rparr>
     [(''src/[id].module.css'', ''.test {}'')] =
     ([(''src/[id].module.css'', ''.test {}'')],
      [Info ''Processing single file: src/[id].module.css''], None)
   \<and> map fst (fst (processSingleFile (mem_collab [''src/a.module.css''] [''test''])
        ''src/a.module.css''
        \<lparr> in_output = None, in_watch = None, in_exportType = None, in_nameFormat = None,
          in_debug = None \<rparr>
        [(''src/a.module.css'', ''.test {}'')])) =
       [''src/a.module.css.d.ts'', ''src/a.module.css'']"
proof -
  let ?s = "\<lparr> in_output = None, in_watch = None, in_exportType = None, in_nameFormat = None,
              in_debug = None \<rparr>"
  have g: "glob (mem_collab [] [''test'']) [(''src/[id].module.css'', ''.test {}'')]
             ''src/[id].module.css'' = Inr []"
    by (simp add: mem_collab_def)
  have a: "processSingleFile (mem_collab [] [''test'']) ''src/[id].module.css'' ?s
             [(''src/[id].module.css'', ''.test {}'')] =
           ([(''src/[id].module.css'', ''.test {}'')],
            [Info ''Processing single file: src/[id].module.css''], None)"
    by code_simp
  have b: "map fst (fst (processSingleFile (mem_collab [''src/a.module.css''] [''test''])
             ''src/a.module.css'' ?s [(''src/a.module.css'', ''.test {}'')])) =
           [''src/a.module.css.d.ts'', ''src/a.module.css'']"
    by code_simp
  show ?thesis
    using processSingleFile_is_batch_run
            [of "mem_collab [] [''test'']" "''src/[id].module.css''" ?s
                "[(''src/[id].module.css'', ''.test {}'')]" "[]"]
          g a b
    by simp
qed


section \<open>The directories to watch\<close>

lemma ancestors_unfold:
  "ancestors d =
     (if d = ''.'' \<or> d = ''/'' then {} else insert (dirname d) (ancestors (dirname d)))"
proof (cases "d = ''.'' \<or> d = ''/''")
  case True
  have "a \<in> ancestors d \<Longrightarrow> False" for a
    by (induction rule: ancestors.induct) (use True in auto)
  then show ?thesis using True by auto
next
  case False
  have sub: "a \<in> insert (dirname d) (ancestors (dirname d))" if "a \<in> ancestors d" for a
    using that
  proof (induction rule: ancestors.induct)
    case parent
    show ?case by simp
  next
    case (grandparent a)
    from grandparent.IH show ?case
    proof
      assume "a = dirname d"
      then have "dirname a \<in> ancestors (dirname d)"
        using grandparent.hyps(2,3) by (auto intro: ancestors.parent)
      then show ?thesis by simp
    next
      assume "a \<in> ancestors (dirname d)"
      then have "dirname a \<in> ancestors (dirname d)"
        using grandparent.hyps(2,3) by (rule ancestors.grandparent)
      then show ?thesis by simp
    qed
  qed
  have top: "dirname d \<in> ancestors d"
    using False by (auto intro: ancestors.parent)
  have sup: "a \<in> ancestors d" if "a \<in> ancestors (dirname d)" for a
    using that
  proof (induction rule: ancestors.induct)
    case parent
    then show ?case using top by (auto intro: ancestors.grandparent)
  next
    case (grandparent a)
    then show ?case by (auto intro: ancestors.grandparent)
  qed
  show ?thesis using False sub top sup by auto
qed

lemma set_set_add: "set (set_add x xs) = insert x (set xs)"
  by (auto simp: set_add_def)

lemma add_parents_set:
  "set (add_parents flt p ds) = set ds \<union> {a \<in> ancestors p. passes_filter flt a}"
proof (induction flt p ds rule: add_parents.induct)
  case (1 flt p ds)
  show ?case
  proof (cases "p \<noteq> ''.'' \<and> p \<noteq> ''/''")
    case False
    then have "ancestors p = {}" using ancestors_unfold [of p] by auto
    then show ?thesis using False by (auto simp: add_parents.simps [of flt p ds])
  next
    case True
    let ?ds = "if flt = [] \<or> str_includes (dirname p) flt then set_add (dirname p) ds else ds"
    have step: "add_parents flt p ds = add_parents flt (dirname p) ?ds"
      using True by (simp add: add_parents.simps [of flt p ds] Let_def)
    have ih: "set (add_parents flt (dirname p) ?ds) =
                set ?ds \<union> {a \<in> ancestors (dirname p). passes_filter flt a}"
      using "1.IH" [OF True refl] .
    have anc: "ancestors p = insert (dirname p) (ancestors (dirname p))"
      using True ancestors_unfold [of p] by auto
    show ?thesis
      unfolding step ih anc
      by (auto simp: set_set_add passes_filter_def)
  qed
qed

lemma watch_files_set:
  "set (watch_files flt files ds) = set ds \<union> watched_dirs flt files"
proof (induction files arbitrary: ds)
  case Nil
  show ?case by (simp add: watched_dirs_def)
next
  case (Cons f fs)
  have "watched_dirs flt (f # fs) =
          insert (dirname f) {a \<in> ancestors (dirname f). passes_filter flt a} \<union> watched_dirs flt fs"
    by (simp add: watched_dirs_def)
  then show ?case
    using Cons [of "add_parents flt (dirname f) (set_add (dirname f) ds)"]
    by (auto simp: Let_def add_parents_set set_set_add)
qed

text \<open>
  C6 as stated fails.  With the pattern \<open>src//*.module.css\<close> the filter is empty, and for the
  one discovered file \<open>src/Button.module.css\<close> the directories to watch are \<open>src\<close> and its
  ancestor \<open>.\<close>, where the statement, which leaves \<open>.\<close> out, gives \<open>src\<close> alone (with the
  filter the code derives, and also with the first component \<open>src\<close> of the pattern as the
  filter).
\<close>

theorem watch_dirs_include_dot_counterexample:
  "snd (snd (watch_start (mem_collab [''src/Button.module.css''] [''button''])
               ''src//*.module.css'' watch_cli
               [(''src/Button.module.css'', ''.button {}'')])) = Inr [''src'', ''.'']
   \<and> projectDir ''src//*.module.css'' = []
   \<and> claimed_watched_dirs (projectDir ''src//*.module.css'') [''src/Button.module.css''] = {''src''}
   \<and> claimed_watched_dirs ''src'' [''src/Button.module.css''] = {''src''}"
proof -
  have run: "snd (snd (watch_start (mem_collab [''src/Button.module.css''] [''button''])
               ''src//*.module.css'' watch_cli
               [(''src/Button.module.css'', ''.button {}'')])) = Inr [''src'', ''.'']"
    by code_simp
  have p: "projectDir ''src//*.module.css'' = []"
    by code_simp
  have d: "dirname ''src/Button.module.css'' = ''src''" "dirname ''src'' = ''.''"
    by code_simp+
  have "ancestors ''src'' = {''.''}"
    using ancestors_unfold [of "''src''"] ancestors_unfold [of "''.''"] d by simp
  then have "claimed_watched_dirs flt [''src/Button.module.css''] = {''src''}" for flt
    by (auto simp: claimed_watched_dirs_def d)
  then show ?thesis using run p by simp
qed

text \<open>
  C6, amended.  The directories to watch are, as a set, the directory of every file
  discovered by the glob pass of \<open>getDirectoriesToWatch\<close> plus, for each such directory, its
  ancestors up to and including the \<open>.\<close> or \<open>/\<close> that ends the chain of parents, where an
  ancestor is included only if the filter is empty or a substring of the ancestor.  At watch
  start, when the initial generation does not throw, the filter is the component of the
  pattern after its first slash (empty when there is none) and the glob pass runs on the
  world the initial generation leaves behind.
\<close>

theorem watch_dirs_are_dirs_and_ancestors:
  "set (watch_files flt files []) = watched_dirs flt files
   \<and> (glob C w pat = Inr files \<longrightarrow>
        snd (getDirectoriesToWatch C w pat flt dbg) = Inr (watch_files flt files []))
   \<and> (generateCssModuleTypes C (generatorOptions pat opts) w = (w', lg, None) \<longrightarrow>
        glob C w' pat = Inr files \<longrightarrow>
        (\<exists>dirs. snd (snd (watch_start C pat opts w)) = Inr dirs
                \<and> set dirs = watched_dirs (projectDir pat) files))"
proof -
  have s: "set (watch_files flt files []) = watched_dirs flt files" for flt
    using watch_files_set [of flt files "[]"] by simp
  have g: "glob C w pat = Inr files \<Longrightarrow>
        snd (getDirectoriesToWatch C w pat flt dbg) = Inr (watch_files flt files [])" for w flt dbg
    by (simp add: getDirectoriesToWatch_def)
  have "snd (snd (watch_start C pat opts w)) = Inr (watch_files (projectDir pat) files [])"
    if "generateCssModuleTypes C (generatorOptions pat opts) w = (w', lg, None)"
      and "glob C w' pat = Inr files"
    using that g [of w' "projectDir pat" "cli_debug opts"]
    by (cases "getDirectoriesToWatch C w' pat (projectDir pat) (cli_debug opts)")
       (simp add: watch_start_def Let_def)
  then show ?thesis using s g by auto
qed

theorem watch_dirs_are_dirs_and_ancestors_witness:
  "snd (snd (watch_start (mem_collab [''/home/u/app/src/ui/Button.module.css''] [''button''])
               ''/home/u/app/src/**/*.module.css'' watch_cli
               [(''/home/u/app/src/ui/Button.module.css'', ''.button {}'')])) =
     Inr [''/home/u/app/src/ui'', ''/home/u/app/src'', ''/home/u/app'', ''/home/u'', ''/home'']
   \<and> watched_dirs (projectDir ''/home/u/app/src/**/*.module.css'')
         [''/home/u/app/src/ui/Button.module.css''] =
       {''/home/u/app/src/ui'', ''/home/u/app/src'', ''/home/u/app'', ''/home/u'', ''/home''}"
proof -
  let ?C = "mem_collab [''/home/u/app/src/ui/Button.module.css''] [''button'']"
  let ?w = "[(''/home/u/app/src/ui/Button.module.css'', ''.button {}'')]"
  let ?p = "''/home/u/app/src/**/*.module.css''"
  let ?o = "constructor (generatorOptions ?p watch_cli)"
  let ?fs = "[''/home/u/app/src/ui/Button.module.css'']"
  let ?r = "processFiles ?C ?o ?fs (?w, generate_header ?o ?fs)"
  have "glob ?C ?w (opt_pattern ?o) = Inr ?fs"
    by (simp add: mem_collab_def)
  then have gen: "generateCssModuleTypes ?C (generatorOptions ?p watch_cli) ?w =
                    (fst ?r, snd ?r, None)"
    unfolding generateCssModuleTypes_def by (rule generate_found)
  have gl: "glob ?C (fst ?r) ?p = Inr ?fs"
    by (simp add: mem_collab_def)
  have run: "snd (snd (watch_start ?C ?p watch_cli ?w)) =
     Inr [''/home/u/app/src/ui'', ''/home/u/app/src'', ''/home/u/app'', ''/home/u'', ''/home'']"
    by code_simp
  from watch_dirs_are_dirs_and_ancestors
         [where files = ?fs and C = ?C and w = ?w and pat = ?p and opts = watch_cli
            and w' = "fst ?r" and lg = "snd ?r"]
       gen gl run
  show ?thesis by auto
qed

section \<open>The handler of \<open>unlink\<close> events\<close>

text \<open>
  C7 against the code.  With a command line that gives no \<open>--output\<close>, the generator writes
  its artifacts beside the sources (the output \<open>auto\<close>), but the handler of \<open>unlink\<close> events
  throws on the removal of a module stylesheet and leaves the artifact in place.  With
  \<open>--output auto\<close> the handler removes the artifact, and does nothing when it is absent.
\<close>

theorem unlink_without_output_throws:
  "opt_output (constructor (generatorOptions ''src/*.module.css'' watch_cli)) = ''auto''
   \<and> on_unlink (mem_collab [] []) watch_cli ''src/Button.module.css''
       [(''/proj/src/Button.module.css.d.ts'', ''export {}'')] =
       ([(''/proj/src/Button.module.css.d.ts'', ''export {}'')], [],
        Some (TypeError ''path.join: argument is undefined''))
   \<and> on_unlink (mem_collab [] []) (watch_cli\<lparr>cli_output := Some ''auto''\<rparr>)
       ''src/Button.module.css'' [(''/proj/src/Button.module.css.d.ts'', ''export {}'')] =
       ([],
        [Log (''File /proj/src/Button.module.css removed, deleted types file: '' @
              ''/proj/src/Button.module.css.d.ts'')],
        None)
   \<and> on_unlink (mem_collab [] []) (watch_cli\<lparr>cli_output := Some ''auto''\<rparr>)
       ''src/Button.module.css'' [] = ([], [], None)"
  by code_simp


end
